theory Spec2Isabelle
  imports Complex_Main "HOL-Library.Word"
begin

unbundle bit_operations_syntax

section \<open>JavaScript values used by the emulator\<close>

text \<open>
  The program counter and the entries of the call stack are JavaScript numbers that are
  always integral, except that \<open>stack.pop()\<close> on an empty array yields \<open>undefined\<close>
  and \<open>undefined + 2\<close> is \<open>NaN\<close>.  All other numeric fields only ever hold integers
  and are modelled as \<open>int\<close>.
\<close>

datatype jsnum = Num int | NaN | Undefined

text \<open>\<open>n + k\<close> for a JavaScript value \<open>n\<close> and an integer literal \<open>k\<close>.\<close>

fun js_add :: "jsnum \<Rightarrow> int \<Rightarrow> jsnum" where
  "js_add (Num n) k = Num (n + k)"
| "js_add NaN k = NaN"
| "js_add Undefined k = NaN"

text \<open>
  An operand of \<open>&\<close>, \<open>|\<close>, \<open><<\<close> is converted with ToInt32, and a value stored into a
  \<open>Uint8Array\<close> with ToUint8; both send \<open>undefined\<close> (here \<open>None\<close>) to 0.  ToUint8
  keeps the low eight bits of an integer.
\<close>

type_synonym byte = "8 word"

definition to_int32 :: "int option \<Rightarrow> int" where
  "to_int32 n = (case n of None \<Rightarrow> 0 | Some k \<Rightarrow> k)"

definition to_uint8 :: "int \<Rightarrow> byte" where
  "to_uint8 n = word_of_int n"

definition to_uint8_opt :: "int option \<Rightarrow> byte" where
  "to_uint8_opt n = (case n of None \<Rightarrow> 0 | Some k \<Rightarrow> to_uint8 k)"

subsection \<open>\<open>Uint8Array\<close> indexed by an arbitrary number\<close>

text \<open>
  A read outside the array yields \<open>undefined\<close>; a write outside the array is ignored.
  The array never changes its length.
\<close>

definition u8_get :: "byte list \<Rightarrow> int \<Rightarrow> int option" where
  "u8_get a k = (if 0 \<le> k \<and> k < int (length a) then Some (uint (a ! nat k)) else None)"

definition u8_set :: "byte list \<Rightarrow> int \<Rightarrow> int \<Rightarrow> byte list" where
  "u8_set a k n = (if 0 \<le> k \<and> k < int (length a) then a[nat k := to_uint8 n] else a)"

fun u8_get_js :: "byte list \<Rightarrow> jsnum \<Rightarrow> int option" where
  "u8_get_js a (Num k) = u8_get a k"
| "u8_get_js a NaN = None"
| "u8_get_js a Undefined = None"

section \<open>renderer.js\<close>

text \<open>
  \<open>display\<close> is a JavaScript array created with \<open>new Array(cols * rows)\<close>: every slot
  starts as a hole (\<open>undefined\<close>), and a store at any index, also beyond the initial
  length or negative, creates that property.  It is a partial map from indices to the
  stored numbers.  \<open>canvas\<close> is the list of rectangles \<open>(x, y, width, height)\<close> filled
  since the surface was last cleared.
\<close>

record renderer =
  cols :: int
  rows :: int
  scale :: int
  display :: "int \<rightharpoonup> int"
  canvas :: "(int \<times> int \<times> int \<times> int) list"

definition new_Renderer :: "int \<Rightarrow> renderer" where
  "new_Renderer sc =
     \<lparr>cols = 64, rows = 32, scale = sc, display = Map.empty, canvas = []\<rparr>"

definition setPixel :: "int \<Rightarrow> int \<Rightarrow> renderer \<Rightarrow> bool \<times> renderer" where
  "setPixel x y r =
     (let x1 = (if x > cols r then x - cols r else if x < 0 then x + cols r else x);
          y1 = (if y > rows r then y - rows r else if y < 0 then y + rows r else y);
          pixelLoc = x1 + y1 * cols r;
          b = to_int32 (display r pixelLoc) XOR 1
      in (b = 0, r\<lparr>display := (display r)(pixelLoc \<mapsto> b)\<rparr>))"

definition clear :: "renderer \<Rightarrow> renderer" where
  "clear r = r\<lparr>display := Map.empty\<rparr>"

definition render :: "renderer \<Rightarrow> renderer" where
  "render r =
     r\<lparr>canvas :=
         map (\<lambda>k. ((int k mod cols r) * scale r, (int k div cols r) * scale r, scale r, scale r))
           (filter (\<lambda>k. to_int32 (display r (int k)) \<noteq> 0) [0..<nat (cols r * rows r)])\<rparr>"

section \<open>speaker.js\<close>

text \<open>\<open>oscillator\<close> holds the frequency of the running tone, if any.\<close>

record speaker =
  muted :: int
  oscillator :: "int option"

definition new_Speaker :: speaker where
  "new_Speaker = \<lparr>muted = 0, oscillator = None\<rparr>"

definition play :: "int \<Rightarrow> speaker \<Rightarrow> speaker" where
  "play frequency sp =
     (if oscillator sp = None
      then sp\<lparr>oscillator := Some (if frequency \<noteq> 0 then frequency else 440)\<rparr>
      else sp)"

definition stop :: "speaker \<Rightarrow> speaker" where
  "stop sp = (if oscillator sp \<noteq> None then sp\<lparr>oscillator := None\<rparr> else sp)"

section \<open>keyboard.js\<close>

text \<open>
  \<open>KEYMAP\<close> maps the physical key code \<open>event.which\<close> to a key value.  An unmapped
  code looks up \<open>undefined\<close>, so a key is an \<open>int option\<close>, and \<open>keysPressed\<close>, which is
  indexed by it, is a partial map on \<open>int option\<close>.

  The only function ever stored in \<open>onNextKeyPress\<close> is the closure created by
  \<open>Fx0A\<close>, which captures the register index \<open>x\<close>; the field holds that index, or
  \<open>None\<close> for \<open>null\<close>.
\<close>

definition KEYMAP :: "int \<rightharpoonup> int" where
  "KEYMAP = map_of
     [(49, 0x1), (50, 0x2), (51, 0x3), (52, 0xc),
      (81, 0x4), (87, 0x5), (69, 0x6), (82, 0xD),
      (65, 0x7), (83, 0x8), (68, 0x9), (70, 0xE),
      (90, 0xA), (88, 0x0), (67, 0xB), (86, 0xF)]"

record keyboard =
  keysPressed :: "int option \<rightharpoonup> bool"
  onNextKeyPress :: "4 word option"

definition new_Keyboard :: keyboard where
  "new_Keyboard = \<lparr>keysPressed = Map.empty, onNextKeyPress = None\<rparr>"

definition isKeyPressed :: "int \<Rightarrow> keyboard \<Rightarrow> bool" where
  "isKeyPressed keyCode kb =
     (case keysPressed kb (Some keyCode) of None \<Rightarrow> False | Some b \<Rightarrow> b)"

section \<open>cpu.js\<close>

text \<open>
  \<open>v\<close> is a \<open>Uint8Array(16)\<close> that is only ever indexed by the nibbles \<open>x\<close> and \<open>y\<close> of
  an opcode, by the constants 0 and 0xF, and by a loop counter bounded by \<open>x\<close>: a total
  function from four-bit indices to bytes.  \<open>memory\<close> is indexed by arbitrary numbers
  and is a list read and written with \<open>u8_get\<close> and \<open>u8_set\<close>.

  \<open>random\<close> and \<open>random_calls\<close> stand for the host's random source: \<open>random k\<close> is the
  value of \<open>Math.floor(Math.random() * 0xFF)\<close> at the \<open>k\<close>-th call.
\<close>

type_synonym regs = "4 word \<Rightarrow> byte"

record cpu =
  renderer :: renderer
  keyboard :: keyboard
  speaker :: speaker
  memory :: "byte list"
  v :: regs
  i :: int
  delayTimer :: int
  soundTimer :: int
  pc :: jsnum
  stack :: "jsnum list"
  paused :: bool
  speed :: int
  random :: "nat \<Rightarrow> int"
  random_calls :: nat

datatype error = UnknownOpcode int

definition new_CPU :: "renderer \<Rightarrow> keyboard \<Rightarrow> speaker \<Rightarrow> (nat \<Rightarrow> int) \<Rightarrow> cpu" where
  "new_CPU r kb sp rnd =
     \<lparr>renderer = r, keyboard = kb, speaker = sp,
      memory = replicate 16 0,
      v = (\<lambda>_. 0),
      i = 0,
      delayTimer = 0, soundTimer = 0,
      pc = Num 0x200,
      stack = [],
      paused = False,
      speed = 10,
      random = rnd, random_calls = 0\<rparr>"

definition sprites :: "int list" where
  "sprites =
     [0xF0, 0x90, 0x90, 0x90, 0xF0,
      0x20, 0x60, 0x20, 0x20, 0x70,
      0xF0, 0x10, 0xF0, 0x80, 0xF0,
      0xF0, 0x10, 0xF0, 0x10, 0xF0,
      0x90, 0x90, 0xF0, 0x10, 0x10,
      0xF0, 0x80, 0xF0, 0x10, 0xF0,
      0xF0, 0x80, 0xF0, 0x90, 0xF0,
      0xF0, 0x10, 0x20, 0x40, 0x40,
      0xF0, 0x90, 0xF0, 0x90, 0xF0,
      0xF0, 0x90, 0xF0, 0x10, 0xF0,
      0xF0, 0x90, 0xF0, 0x90, 0x90,
      0xE0, 0x90, 0xE0, 0x90, 0xE0,
      0xF0, 0x80, 0x80, 0x80, 0xF0,
      0xE0, 0x90, 0x90, 0x90, 0xE0,
      0xF0, 0x80, 0xF0, 0x80, 0xF0,
      0xF0, 0x80, 0xF0, 0x80, 0x80]"

text \<open>\<open>for (k = 0; k < xs.length; k++) memory[base + k] = xs[k]\<close>\<close>

definition store_from :: "int \<Rightarrow> int list \<Rightarrow> byte list \<Rightarrow> byte list" where
  "store_from base xs mem =
     foldl (\<lambda>m k. u8_set m (base + int k) (xs ! k)) mem [0..<length xs]"

definition loadSpritesIntoMemory :: "cpu \<Rightarrow> cpu" where
  "loadSpritesIntoMemory s = s\<lparr>memory := store_from 0 sprites (memory s)\<rparr>"

text \<open>\<open>program\<close> is a \<open>Uint8Array\<close>; its elements are given as the numbers read from it.\<close>

definition loadProgramIntoMemory :: "byte list \<Rightarrow> cpu \<Rightarrow> cpu" where
  "loadProgramIntoMemory program s =
     s\<lparr>memory := store_from 0x200 (map uint program) (memory s)\<rparr>"

text \<open>
  \<open>loadRom\<close> sends a request; when the response arrives, \<open>onload\<close> runs and loads the
  program if the response has content (\<open>None\<close> is an empty response).
\<close>

definition onload :: "byte list option \<Rightarrow> cpu \<Rightarrow> cpu" where
  "onload response s =
     (case response of None \<Rightarrow> s | Some program \<Rightarrow> loadProgramIntoMemory program s)"

subsection \<open>Timers and sound\<close>

definition updateTimers :: "cpu \<Rightarrow> cpu" where
  "updateTimers s =
     (let s1 = (if delayTimer s > 0 then s\<lparr>delayTimer := delayTimer s - 1\<rparr> else s)
      in if soundTimer s1 > 0 then s1\<lparr>soundTimer := soundTimer s1 - 1\<rparr> else s1)"

definition playSound :: "cpu \<Rightarrow> cpu" where
  "playSound s =
     (if soundTimer s > 0 then s\<lparr>speaker := play 40 (speaker s)\<rparr>
      else s\<lparr>speaker := stop (speaker s)\<rparr>)"

subsection \<open>Instruction fields\<close>

text \<open>
  The opcode is a JavaScript number.  \<open>&\<close> with a mask below \<open>2^31\<close> reads the same
  bits of any integer as \<open>AND\<close> on \<open>int\<close> does, and \<open>>>\<close> of the non-negative masked
  value is \<open>drop_bit\<close>.
\<close>

definition opx :: "int \<Rightarrow> 4 word" where
  "opx opcode = word_of_int (drop_bit 8 (opcode AND 0x0F00))"

definition opy :: "int \<Rightarrow> 4 word" where
  "opy opcode = word_of_int (drop_bit 4 (opcode AND 0x00F0))"

subsection \<open>Group \<open>0x0000\<close>: \<open>switch (opcode)\<close>\<close>

definition exec_0 :: "int \<Rightarrow> cpu \<Rightarrow> cpu" where
  "exec_0 opcode s =
     (if opcode = 0x0000 then s
      else if opcode = 0x00E0 then s\<lparr>renderer := clear (renderer s)\<rparr>
      else if opcode = 0x00EE then
        s\<lparr>pc := (if stack s = [] then Undefined else last (stack s)),
          stack := butlast (stack s)\<rparr>
      else s)"

subsection \<open>Group \<open>0x8000\<close>: \<open>switch (opcode & 0xF)\<close>\<close>

text \<open>
  Every read of a register yields its number (\<open>uint\<close>), every store truncates with
  ToUint8, and the statements run in the source's order, so that a write to \<open>v[0xF]\<close>
  is seen by a later read of \<open>v[x]\<close> when \<open>x\<close> is \<open>0xF\<close>.  In \<open>8xy4\<close> the value of the
  expression \<open>this.v[x] += this.v[y]\<close> is the untruncated sum.
\<close>

definition exec_8 :: "int \<Rightarrow> 4 word \<Rightarrow> 4 word \<Rightarrow> regs \<Rightarrow> regs" where
  "exec_8 opcode x y r =
     (let n = opcode AND 0xF in
      if n = 0x0 then r(x := to_uint8 (uint (r y)))
      else if n = 0x1 then r(x := to_uint8 (uint (r x) OR uint (r y)))
      else if n = 0x2 then r(x := to_uint8 (uint (r x) AND uint (r y)))
      else if n = 0x3 then r(x := to_uint8 (uint (r x) XOR uint (r y)))
      else if n = 0x4 then
        (let sum = uint (r x) + uint (r y);
             r1 = r(x := to_uint8 sum);
             r2 = r1(0xF := 0);
             r3 = (if sum > 0xFF then r2(0xF := 1) else r2)
         in r3(x := to_uint8 sum))
      else if n = 0x5 then
        (let r1 = r(0xF := 0);
             r2 = (if uint (r1 x) > uint (r1 y) then r1(0xF := 1) else r1)
         in r2(x := to_uint8 (uint (r2 x) - uint (r2 y))))
      else if n = 0x6 then
        (let r1 = r(0xF := to_uint8 (uint (r x) AND 0x1))
         in r1(x := to_uint8 (drop_bit 1 (uint (r1 x)))))
      else if n = 0x7 then
        (let r1 = r(0xF := 0);
             r2 = (if uint (r1 y) > uint (r1 x) then r1(0xF := 1) else r1)
         in r2(x := to_uint8 (uint (r2 y) - uint (r2 x))))
      else if n = 0xE then
        (let r1 = r(0xF := to_uint8 (uint (r x) AND 0x80))
         in r1(x := to_uint8 (push_bit 1 (uint (r1 x)))))
      else r)"

subsection \<open>\<open>Dxyn\<close>: the sprite loops\<close>

text \<open>
  The renderer is a collaborator handed to the constructor; the loops are written
  against its \<open>setPixel\<close> method, here the parameter \<open>sp\<close>.  The loops change the
  registers and the renderer only.

  Body of the inner loop, at column \<open>col\<close> of row \<open>row\<close>: \<open>sprite\<close> is the value read
  for the row, \<open>None\<close> when the read was out of range.
\<close>

definition draw_col ::
  "(int \<Rightarrow> int \<Rightarrow> 'r \<Rightarrow> bool \<times> 'r) \<Rightarrow> 4 word \<Rightarrow> int option \<Rightarrow> nat \<Rightarrow> regs \<times> 'r \<Rightarrow> nat \<Rightarrow> regs \<times> 'r"
  where
  "draw_col sp x sprite row vr col =
     (case vr of (vv, r) \<Rightarrow>
        if to_int32 sprite AND 0x80 > 0
        then (case sp (uint (vv x) + int col) (uint (vv x) + int row) r of
                (erased, r') \<Rightarrow> (if erased then vv(0xF := 1) else vv, r'))
        else (vv, r))"

text \<open>
  Body of the outer loop.  The statement \<open>sprite <<= 1\<close> stands after the inner loop;
  it changes the local \<open>sprite\<close>, which is not read again.
\<close>

definition draw_row ::
  "(int \<Rightarrow> int \<Rightarrow> 'r \<Rightarrow> bool \<times> 'r) \<Rightarrow> 4 word \<Rightarrow> byte list \<Rightarrow> int \<Rightarrow> regs \<times> 'r \<Rightarrow> nat \<Rightarrow> regs \<times> 'r"
  where
  "draw_row sp x mem ireg vr row =
     (let sprite = u8_get mem (ireg + int row);
          width = 8;
          vr' = foldl (draw_col sp x sprite row) vr [0..<width];
          sprite' = push_bit 1 (to_int32 sprite)
      in vr')"

definition draw ::
  "(int \<Rightarrow> int \<Rightarrow> 'r \<Rightarrow> bool \<times> 'r) \<Rightarrow> int \<Rightarrow> byte list \<Rightarrow> int \<Rightarrow> regs \<times> 'r \<Rightarrow> regs \<times> 'r"
  where
  "draw sp opcode mem ireg vr =
     (let height = opcode AND 0xF
      in case vr of (vv, r) \<Rightarrow>
           foldl (draw_row sp (opx opcode) mem ireg) (vv(0xF := 0), r) [0..<nat height])"

subsection \<open>Group \<open>0xE000\<close>: \<open>switch (opcode & 0xFF)\<close>\<close>

definition exec_E :: "int \<Rightarrow> cpu \<Rightarrow> cpu" where
  "exec_E opcode s =
     (let x = opx opcode; n = opcode AND 0xFF in
      if n = 0x9E then
        (if isKeyPressed (uint (v s x)) (keyboard s) then s\<lparr>pc := js_add (pc s) 2\<rparr> else s)
      else if n = 0xA1 then
        (if \<not> isKeyPressed (uint (v s x)) (keyboard s) then s\<lparr>pc := js_add (pc s) 2\<rparr> else s)
      else s)"

subsection \<open>Group \<open>0xF000\<close>: \<open>switch (opcode & 0xFF)\<close>\<close>

text \<open>
  \<open>parseInt\<close> of the quotients in \<open>Fx33\<close> drops the fraction of a non-negative number
  below 10, which is \<open>div\<close>.
\<close>

definition exec_F :: "int \<Rightarrow> cpu \<Rightarrow> cpu" where
  "exec_F opcode s =
     (let x = opx opcode; n = opcode AND 0xFF in
      if n = 0x07 then s\<lparr>v := (v s)(x := to_uint8 (delayTimer s))\<rparr>
      else if n = 0x0A then
        s\<lparr>paused := True, keyboard := (keyboard s)\<lparr>onNextKeyPress := Some x\<rparr>\<rparr>
      else if n = 0x15 then s\<lparr>delayTimer := uint (v s x)\<rparr>
      else if n = 0x18 then s\<lparr>soundTimer := uint (v s x)\<rparr>
      else if n = 0x1E then s\<lparr>i := i s + uint (v s x)\<rparr>
      else if n = 0x29 then s\<lparr>i := uint (v s x) * 5\<rparr>
      else if n = 0x33 then
        (let m1 = u8_set (memory s) (i s) (uint (v s x) div 100);
             m2 = u8_set m1 (i s + 1) ((uint (v s x) mod 100) div 10);
             m3 = u8_set m2 (i s + 2) (uint (v s x) mod 10)
         in s\<lparr>memory := m3\<rparr>)
      else if n = 0x55 then
        s\<lparr>memory :=
            foldl (\<lambda>m registerIndex.
                     u8_set m (i s + int registerIndex) (uint (v s (of_nat registerIndex))))
              (memory s) [0..<Suc (unat x)]\<rparr>
      else if n = 0x65 then
        s\<lparr>v :=
            foldl (\<lambda>vv registerIndex.
                     vv(of_nat registerIndex :=
                          to_uint8_opt (u8_get (memory s) (i s + int registerIndex))))
              (v s) [0..<Suc (unat x)]\<rparr>
      else s)"

subsection \<open>\<open>executeInstruction\<close>: \<open>switch (opcode & 0xF000)\<close>\<close>


definition executeInstruction :: "int \<Rightarrow> cpu \<Rightarrow> error + cpu" where
  "executeInstruction opcode s0 =
     (let s = s0\<lparr>pc := js_add (pc s0) 2\<rparr>;
          x = opx opcode;
          y = opy opcode;
          g = opcode AND 0xF000
      in
      if g = 0x0000 then Inr (exec_0 opcode s)
      else if g = 0x1000 then Inr (s\<lparr>pc := Num (opcode AND 0xFFF)\<rparr>)
      else if g = 0x2000 then
        Inr (s\<lparr>stack := stack s @ [pc s], pc := Num (opcode AND 0xFFF)\<rparr>)
      else if g = 0x3000 then
        Inr (if uint (v s x) = (opcode AND 0xFF) then s\<lparr>pc := js_add (pc s) 2\<rparr> else s)
      else if g = 0x4000 then
        Inr (if uint (v s x) \<noteq> (opcode AND 0xFF) then s\<lparr>pc := js_add (pc s) 2\<rparr> else s)
      else if g = 0x5000 then
        Inr (if uint (v s x) = uint (v s y) then s\<lparr>pc := js_add (pc s) 2\<rparr> else s)
      else if g = 0x6000 then Inr (s\<lparr>v := (v s)(x := to_uint8 (opcode AND 0xFF))\<rparr>)
      else if g = 0x7000 then
        Inr (s\<lparr>v := (v s)(x := to_uint8 (uint (v s x) + (opcode AND 0xFF)))\<rparr>)
      else if g = 0x8000 then Inr (s\<lparr>v := exec_8 opcode x y (v s)\<rparr>)
      else if g = 0x9000 then
        Inr (if uint (v s x) \<noteq> uint (v s y) then s\<lparr>pc := js_add (pc s) 2\<rparr> else s)
      else if g = 0xA000 then Inr (s\<lparr>i := opcode AND 0xFFF\<rparr>)
      else if g = 0xB000 then Inr (s\<lparr>pc := Num ((opcode AND 0xFFF) + uint (v s 0))\<rparr>)
      else if g = 0xC000 then
        (let rand = random s (random_calls s)
         in Inr (s\<lparr>v := (v s)(x := to_uint8 (rand AND (opcode AND 0xFF))),
                  random_calls := Suc (random_calls s)\<rparr>))
      else if g = 0xD000 then
        (case draw setPixel opcode (memory s) (i s) (v s, renderer s) of
           (vv, r) \<Rightarrow> Inr (s\<lparr>v := vv, renderer := r\<rparr>))
      else if g = 0xE000 then Inr (exec_E opcode s)
      else if g = 0xF000 then Inr (exec_F opcode s)
      else Inl (UnknownOpcode opcode))"

subsection \<open>\<open>cycle\<close>\<close>

text \<open>
  \<open>this.memory[this.pc] << 8 | this.memory[this.pc + 1]\<close>: a byte read outside the
  memory is \<open>undefined\<close> and counts as 0 under \<open><<\<close> and \<open>|\<close>.
\<close>

definition fetch :: "cpu \<Rightarrow> int" where
  "fetch s =
     push_bit 8 (to_int32 (u8_get_js (memory s) (pc s)))
       OR to_int32 (u8_get_js (memory s) (js_add (pc s) 1))"

text \<open>
  The \<open>for\<close> loop of \<open>cycle\<close>, with \<open>n\<close> iterations left.  The loop calls the
  method \<open>executeInstruction\<close> of the object, here the parameter \<open>exec\<close>; \<open>cycle\<close>
  passes the \<open>executeInstruction\<close> defined above.  A failure thrown by the call is
  not caught: it leaves the loop and \<open>cycle\<close>.  No instruction assigns \<open>speed\<close>, so
  the number of iterations of the loop in \<open>cycle\<close> is \<open>speed\<close> at entry.
\<close>

fun cycle_loop :: "(int \<Rightarrow> cpu \<Rightarrow> error + cpu) \<Rightarrow> nat \<Rightarrow> cpu \<Rightarrow> error + cpu" where
  "cycle_loop exec 0 s = Inr s"
| "cycle_loop exec (Suc n) s =
     (if \<not> paused s
      then (case exec (fetch s) s of
              Inl e \<Rightarrow> Inl e
            | Inr s' \<Rightarrow> cycle_loop exec n s')
      else cycle_loop exec n s)"

definition cycle :: "cpu \<Rightarrow> error + cpu" where
  "cycle s =
     (case cycle_loop executeInstruction (nat (speed s)) s of
        Inl e \<Rightarrow> Inl e
      | Inr s1 \<Rightarrow>
          (let s2 = (if \<not> paused s1 then updateTimers s1 else s1);
               s3 = playSound s2
           in Inr (s3\<lparr>renderer := render (renderer s3)\<rparr>)))"

subsection \<open>Key events delivered by the host\<close>

text \<open>
  \<open>onKeyDown\<close> and \<open>onKeyUp\<close> of keyboard.js, acting on the machine that owns the
  keyboard: the stored callback assigns the register and the paused flag of the CPU.
  The guard \<open>key\<close> of the \<open>if\<close> is the truthiness of the looked-up key, which fails
  for \<open>undefined\<close> and for the number 0.
\<close>

definition onKeyDown :: "int \<Rightarrow> cpu \<Rightarrow> cpu" where
  "onKeyDown which s =
     (let key = KEYMAP which;
          s1 = s\<lparr>keyboard := (keyboard s)\<lparr>keysPressed := (keysPressed (keyboard s))(key \<mapsto> True)\<rparr>\<rparr>
      in case onNextKeyPress (keyboard s1) of
           None \<Rightarrow> s1
         | Some x \<Rightarrow>
             if key \<noteq> None \<and> key \<noteq> Some 0
             then (let s2 = s1\<lparr>v := (v s1)(x := to_uint8_opt key), paused := False\<rparr>
                   in s2\<lparr>keyboard := (keyboard s2)\<lparr>onNextKeyPress := None\<rparr>\<rparr>)
             else s1)"

definition onKeyUp :: "int \<Rightarrow> cpu \<Rightarrow> cpu" where
  "onKeyUp which s =
     (let key = KEYMAP which
      in s\<lparr>keyboard := (keyboard s)\<lparr>keysPressed := (keysPressed (keyboard s))(key \<mapsto> False)\<rparr>\<rparr>)"

section \<open>chip8.js\<close>

text \<open>
  The module's variables.  \<open>Date.now()\<close> is an input: \<open>init\<close> and \<open>step\<close> take the
  clock reading, in whole milliseconds, of their call.  \<open>fpsInterval\<close> is \<open>1000 / fps\<close>;
  it is only compared with a whole number of milliseconds, and a whole number exceeds
  the rounded quotient exactly when it exceeds the exact one.  \<open>now\<close> and \<open>elapsed\<close>
  are unassigned until the first \<open>step\<close>, which assigns both before reading them;
  they start as 0 here.  \<open>loop\<close> counts the frame callbacks requested from the host.
\<close>

record chip8 =
  cpu :: cpu
  fps :: int
  fpsInterval :: rat
  startTime :: int
  now :: int
  then_time :: int
  elapsed :: int
  loop :: nat

definition init :: "int \<Rightarrow> (nat \<Rightarrow> int) \<Rightarrow> chip8" where
  "init t rnd =
     \<lparr>cpu = loadSpritesIntoMemory (new_CPU (new_Renderer 10) new_Keyboard new_Speaker rnd),
      fps = 60,
      fpsInterval = 1000 / 60,
      startTime = t,
      now = 0,
      then_time = t,
      elapsed = 0,
      loop = 1\<rparr>"

definition step :: "int \<Rightarrow> chip8 \<Rightarrow> error + chip8" where
  "step t g =
     (let g1 = g\<lparr>now := t\<rparr>;
          g2 = g1\<lparr>elapsed := now g1 - then_time g1\<rparr>
      in if of_int (elapsed g2) > fpsInterval g2
         then (case cycle (cpu g2) of
                 Inl e \<Rightarrow> Inl e
               | Inr c \<Rightarrow> Inr (g2\<lparr>cpu := c, loop := Suc (loop g2)\<rparr>))
         else Inr (g2\<lparr>loop := Suc (loop g2)\<rparr>))"

section \<open>The machine at start-up\<close>

text \<open>
  The CPU as chip8.js constructs it, with a renderer of scale 10, before anything is
  loaded.  The random source is an argument.
\<close>

definition machine0 :: "(nat \<Rightarrow> int) \<Rightarrow> cpu" where
  "machine0 rnd = new_CPU (new_Renderer 10) new_Keyboard new_Speaker rnd"

section \<open>The calls a sprite makes\<close>

text \<open>
  Notions for stating what the sprite loops of \<open>Dxyn\<close> do to the renderer; they are
  compared with \<open>draw\<close> below.  \<open>row_calls w sprite row\<close> lists the coordinates plotted
  for one row from the origin value \<open>w\<close>: all eight columns when bit 7 of the row's
  byte is set, none otherwise.  \<open>sprite_calls\<close> joins the rows in order.  \<open>apply_calls\<close>
  makes the listed calls one after the other, and \<open>logged sp\<close> is the method \<open>sp\<close>
  that also records the coordinates of each call.
\<close>

definition row_calls :: "int \<Rightarrow> int option \<Rightarrow> nat \<Rightarrow> (int \<times> int) list" where
  "row_calls w sprite row =
     (if to_int32 sprite AND 0x80 > 0
      then map (\<lambda>col. (w + int col, w + int row)) [0..<8]
      else [])"

definition sprite_calls :: "int \<Rightarrow> byte list \<Rightarrow> int \<Rightarrow> nat \<Rightarrow> (int \<times> int) list" where
  "sprite_calls w mem ireg height =
     concat (map (\<lambda>row. row_calls w (u8_get mem (ireg + int row)) row) [0..<height])"

definition apply_calls :: "(int \<Rightarrow> int \<Rightarrow> 'r \<Rightarrow> bool \<times> 'r) \<Rightarrow> (int \<times> int) list \<Rightarrow> 'r \<Rightarrow> 'r" where
  "apply_calls sp calls r = foldl (\<lambda>r' ab. snd (sp (fst ab) (snd ab) r')) r calls"

definition logged ::
  "(int \<Rightarrow> int \<Rightarrow> 'r \<Rightarrow> bool \<times> 'r) \<Rightarrow> int \<Rightarrow> int \<Rightarrow> 'r \<times> (int \<times> int) list
     \<Rightarrow> bool \<times> 'r \<times> (int \<times> int) list" where
  "logged sp a b rl =
     (case rl of (r, calls) \<Rightarrow>
        (case sp a b r of (erased, r') \<Rightarrow> (erased, r', calls @ [(a, b)])))"

text \<open>
  The calls for every register index \<open>x\<close>, \<open>0xF\<close> included.  \<open>sprite_positions\<close> lists, in
  the order of the loops, the pairs of row and column at which a call is made: the
  eight columns of each row whose byte has bit 7 set.  \<open>sprite_run\<close> makes the call of
  each position from the value \<open>w\<close> that register \<open>x\<close> holds at that moment, passing
  \<open>w\<close> plus the column and \<open>w\<close> plus the row, and records it; when the call reports
  an erased pixel and \<open>x\<close> is \<open>0xF\<close>, the register, and so \<open>w\<close>, is 1 from then on.
  \<open>sprite_trace\<close> is the list of calls so made, and \<open>origin_state\<close> reads the three
  components that \<open>sprite_run\<close> follows off a state of the loops.
\<close>

definition sprite_positions :: "byte list \<Rightarrow> int \<Rightarrow> nat \<Rightarrow> (nat \<times> nat) list" where
  "sprite_positions mem ireg height =
     concat (map (\<lambda>row. if to_int32 (u8_get mem (ireg + int row)) AND 0x80 > 0
                        then map (\<lambda>col. (row, col)) [0..<8]
                        else [])
               [0..<height])"

fun sprite_run ::
  "(int \<Rightarrow> int \<Rightarrow> 'r \<Rightarrow> bool \<times> 'r) \<Rightarrow> 4 word \<Rightarrow> (nat \<times> nat) list
     \<Rightarrow> int \<times> 'r \<times> (int \<times> int) list \<Rightarrow> int \<times> 'r \<times> (int \<times> int) list" where
  "sprite_run sp x [] st = st"
| "sprite_run sp x ((row, col) # ps) (w, r, calls) =
     (case sp (w + int col) (w + int row) r of
        (erased, r') \<Rightarrow>
          sprite_run sp x ps
            (if erased \<and> x = 0xF then 1 else w, r', calls @ [(w + int col, w + int row)]))"

definition sprite_trace ::
  "(int \<Rightarrow> int \<Rightarrow> 'r \<Rightarrow> bool \<times> 'r) \<Rightarrow> 4 word \<Rightarrow> (nat \<times> nat) list \<Rightarrow> int \<Rightarrow> 'r
     \<Rightarrow> (int \<times> int) list" where
  "sprite_trace sp x ps w r = snd (snd (sprite_run sp x ps (w, r, [])))"

definition origin_state ::
  "4 word \<Rightarrow> regs \<times> 'r \<times> (int \<times> int) list \<Rightarrow> int \<times> 'r \<times> (int \<times> int) list" where
  "origin_state x st = (case st of (vv, r, calls) \<Rightarrow> (uint (vv x), r, calls))"

section \<open>Loading the program\<close>

lemma length_u8_set: "length (u8_set a k n) = length a"
  by (simp add: u8_set_def)

lemma length_store_from: "length (store_from base xs mem) = length mem"
proof -
  have "length (foldl (\<lambda>m k. u8_set m (base + int k) (xs ! k)) mem ks) = length mem" for ks
    by (induction ks arbitrary: mem) (simp_all add: length_u8_set)
  then show ?thesis by (simp add: store_from_def)
qed

lemma store_from_out_of_range:
  assumes "int (length mem) \<le> base"
  shows "store_from base xs mem = mem"
proof -
  have "foldl (\<lambda>m k. u8_set m (base + int k) (xs ! k)) mem ks = mem" for ks
    using assms by (induction ks) (simp_all add: u8_set_def)
  then show ?thesis by (simp add: store_from_def)
qed

lemma store_from_prefix_nth:
  assumes "0 \<le> base" "base + int n \<le> int (length mem)" "j < n"
  shows "foldl (\<lambda>m k. u8_set m (base + int k) (xs ! k)) mem [0..<n] ! nat (base + int j)
           = to_uint8 (xs ! j)"
  using assms
proof (induction n arbitrary: j)
  case 0
  then show ?case by simp
next
  case (Suc n)
  let ?m = "foldl (\<lambda>m k. u8_set m (base + int k) (xs ! k)) mem [0..<n]"
  have len: "length ?m = length mem"
    by (induction n) (simp_all add: length_u8_set)
  show ?case
  proof (cases "j = n")
    case True
    with Suc.prems len show ?thesis by (simp add: u8_set_def)
  next
    case False
    with Suc.prems have "j < n" by simp
    moreover have "nat (base + int n) \<noteq> nat (base + int j)"
      using False Suc.prems by linarith
    ultimately show ?thesis
      using Suc.IH [of j] Suc.prems len by (simp add: u8_set_def)
  qed
qed

lemma loadProgramIntoMemory_fits:
  assumes "0x200 + int (length program) \<le> int (length (memory s))" "k < length program"
  shows "u8_get (memory (loadProgramIntoMemory program s)) (0x200 + int k)
           = Some (uint (program ! k))"
proof -
  have "store_from 0x200 (map uint program) (memory s) ! nat (0x200 + int k)
          = to_uint8 (map uint program ! k)"
    unfolding store_from_def
    using assms by (intro store_from_prefix_nth) simp_all
  then show ?thesis
    using assms by (simp add: loadProgramIntoMemory_def u8_get_def length_store_from to_uint8_def)
qed

text \<open>
  The constructor allocates 16 bytes, so every address from 0x200 on is outside the
  memory and the loop of \<open>loadProgramIntoMemory\<close> stores nothing.
\<close>

lemma loadProgramIntoMemory_new_CPU:
  "memory (loadProgramIntoMemory program (new_CPU r kb sp rnd)) = replicate 16 0"
  by (simp add: loadProgramIntoMemory_def new_CPU_def store_from_out_of_range)

text \<open>
  C1.  The claim: after \<open>loadProgramIntoMemory(program)\<close>, \<open>memory[0x200 + k]\<close> equals
  \<open>program[k]\<close> for every \<open>k\<close> below the program's length.  On the machine the
  constructor builds, loading the two-byte program \<open>[0x12, 0x34]\<close> leaves the memory as
  it was, and \<open>memory[0x200]\<close> reads \<open>undefined\<close>.  (\<open>loadProgramIntoMemory_fits\<close>
  shows that the loop itself copies the program when the memory is large enough.)
\<close>

theorem C1_program_not_loaded:
  "u8_get (memory (loadProgramIntoMemory [0x12, 0x34]
             (new_CPU (new_Renderer 10) new_Keyboard new_Speaker rnd))) 0x200 = None
   \<and> memory (loadProgramIntoMemory [0x12, 0x34]
             (new_CPU (new_Renderer 10) new_Keyboard new_Speaker rnd)) = replicate 16 0"
  by (simp add: loadProgramIntoMemory_def new_CPU_def store_from_out_of_range u8_get_def)

section \<open>Coordinate wraparound of \<open>setPixel\<close>\<close>

lemma setPixel_minus_one_wraps:
  "cols r = 64 \<Longrightarrow> setPixel (- 1) 10 r = setPixel 63 10 r"
  by (simp add: setPixel_def)

lemma setPixel_64_index:
  "cols r = 64 \<Longrightarrow> rows r = 32 \<Longrightarrow> 
   display (snd (setPixel 64 10 r)) = (display r)(704 \<mapsto> to_int32 (display r 704) XOR 1)"
  by (simp add: setPixel_def Let_def)

text \<open>
  C3.  The claim: \<open>setPixel(64, 10)\<close> behaves as \<open>setPixel(0, 10)\<close>, and
  \<open>setPixel(-1, 10)\<close> as \<open>setPixel(63, 10)\<close>.  On the empty 64 by 32 display,
  \<open>setPixel(64, 10)\<close> toggles index 704 (column 0 of row 11) and leaves index 640
  alone, while \<open>setPixel(0, 10)\<close> toggles index 640: the test \<open>x > this.cols\<close> lets the
  column 64 through.  The second half of the claim holds.
\<close>

theorem C3_setPixel_64_not_wrapped:
  "display (snd (setPixel 64 10 (new_Renderer 10))) 704 = Some 1
   \<and> display (snd (setPixel 64 10 (new_Renderer 10))) 640 = None
   \<and> display (snd (setPixel 0 10 (new_Renderer 10))) 704 = None
   \<and> display (snd (setPixel 0 10 (new_Renderer 10))) 640 = Some 1
   \<and> setPixel (- 1) 10 (new_Renderer 10) = setPixel 63 10 (new_Renderer 10)"
  by (simp add: setPixel_def new_Renderer_def to_int32_def)

section \<open>\<open>8xy4\<close>: addition with carry\<close>

lemma exec_8_add:
  assumes "opcode AND 0xF = 0x4"
  shows "exec_8 opcode x y r =
           (let sum = uint (r x) + uint (r y)
            in (r(0xF := (if sum > 0xFF then 1 else 0)))(x := to_uint8 sum))"
  using assms by (auto simp: exec_8_def Let_def fun_eq_iff)

lemma uint_to_uint8: "uint (to_uint8 n) = n mod 256"
  by (simp add: to_uint8_def uint_word_of_int)

text \<open>
  C6, as amended.  For every opcode of the form \<open>8xy4\<close> and all register contents,
  \<open>executeInstruction\<close> raises no failure and leaves in register \<open>x\<close> the sum of the
  former registers \<open>x\<close> and \<open>y\<close> modulo 256; when \<open>x\<close> is not \<open>0xF\<close>, register \<open>0xF\<close>
  is left 1 if the sum exceeds 255 and 0 otherwise.  (When \<open>x\<close> is \<open>0xF\<close> the sum is
  stored after the flag and replaces it.)
\<close>

theorem C6_add_with_carry:
  assumes "opcode AND 0xF000 = 0x8000" and "opcode AND 0xF = 0x4"
  shows "\<exists>s'. executeInstruction opcode s = Inr s'
           \<and> uint (v s' (opx opcode)) = (uint (v s (opx opcode)) + uint (v s (opy opcode))) mod 256
           \<and> (opx opcode \<noteq> 0xF \<longrightarrow>
                uint (v s' 0xF) =
                  (if uint (v s (opx opcode)) + uint (v s (opy opcode)) > 255 then 1 else 0))"
  using assms by (simp add: executeInstruction_def Let_def exec_8_add uint_to_uint8)

text \<open>The scenario of registers 1 = 0xFF and 2 = 0x01 under opcode \<open>0x8124\<close>.\<close>

theorem C6_add_with_carry_witness:
  "(0x8124 :: int) AND 0xF000 = 0x8000 \<and> (0x8124 :: int) AND 0xF = 0x4
   \<and> opx 0x8124 = 1 \<and> opy 0x8124 = 2
   \<and> \<not> isl (executeInstruction 0x8124 ((machine0 (\<lambda>_. 0))\<lparr>v := (\<lambda>_. 0)(1 := 0xFF, 2 := 0x01)\<rparr>))
   \<and> uint (v (projr (executeInstruction 0x8124
               ((machine0 (\<lambda>_. 0))\<lparr>v := (\<lambda>_. 0)(1 := 0xFF, 2 := 0x01)\<rparr>))) 1) = 0
   \<and> uint (v (projr (executeInstruction 0x8124
               ((machine0 (\<lambda>_. 0))\<lparr>v := (\<lambda>_. 0)(1 := 0xFF, 2 := 0x01)\<rparr>))) 0xF) = 1"
  using C6_add_with_carry [of "0x8124" "(machine0 (\<lambda>_. 0))\<lparr>v := (\<lambda>_. 0)(1 := 0xFF, 2 := 0x01)\<rparr>"]
  by (auto simp: opx_def opy_def)

text \<open>
  The claim as first stated also covers \<open>x = 0xF\<close>.  Opcode \<open>0x8F04\<close> with 2 in
  register \<open>0xF\<close> and 3 in register 0 leaves 5 in register \<open>0xF\<close>, not the carry 0.
\<close>

theorem C6_flag_overwritten:
  "(0x8F04 :: int) AND 0xF000 = 0x8000 \<and> (0x8F04 :: int) AND 0xF = 0x4
   \<and> opx 0x8F04 = 0xF \<and> opy 0x8F04 = 0
   \<and> uint (v ((machine0 (\<lambda>_. 0))\<lparr>v := (\<lambda>_. 0)(0xF := 2, 0 := 3)\<rparr>) 0xF) = 2
   \<and> uint (v ((machine0 (\<lambda>_. 0))\<lparr>v := (\<lambda>_. 0)(0xF := 2, 0 := 3)\<rparr>) 0) = 3
   \<and> \<not> isl (executeInstruction 0x8F04 ((machine0 (\<lambda>_. 0))\<lparr>v := (\<lambda>_. 0)(0xF := 2, 0 := 3)\<rparr>))
   \<and> uint (v (projr (executeInstruction 0x8F04
               ((machine0 (\<lambda>_. 0))\<lparr>v := (\<lambda>_. 0)(0xF := 2, 0 := 3)\<rparr>))) 0xF) = 5
   \<and> uint (v (projr (executeInstruction 0x8F04
               ((machine0 (\<lambda>_. 0))\<lparr>v := (\<lambda>_. 0)(0xF := 2, 0 := 3)\<rparr>))) 0xF)
        \<noteq> (if (2::int) + 3 > 255 then 1 else 0)"
  by (simp add: executeInstruction_def Let_def exec_8_def opx_def opy_def to_uint8_def machine0_def new_CPU_def)

section \<open>Sub-cases that no inner \<open>switch\<close> lists\<close>

lemma exec_8_unlisted:
  "opcode AND 0xF \<notin> {0x0, 0x1, 0x2, 0x3, 0x4, 0x5, 0x6, 0x7, 0xE} \<Longrightarrow> exec_8 opcode x y r = r"
  by (simp add: exec_8_def)

text \<open>
  C10.  For every opcode whose high nibble selects group \<open>0x0000\<close>, \<open>0x8000\<close>,
  \<open>0xE000\<close> or \<open>0xF000\<close> and whose low bits match none of the sub-cases the inner
  \<open>switch\<close> of that group lists, \<open>executeInstruction\<close> raises no failure and returns the
  state unchanged except for \<open>pc += 2\<close>.
\<close>

theorem C10_unlisted_subcase_only_advances_pc:
  assumes "(opcode AND 0xF000 = 0x0000 \<and> opcode \<notin> {0x0000, 0x00E0, 0x00EE})
         \<or> (opcode AND 0xF000 = 0x8000
              \<and> opcode AND 0xF \<notin> {0x0, 0x1, 0x2, 0x3, 0x4, 0x5, 0x6, 0x7, 0xE})
         \<or> (opcode AND 0xF000 = 0xE000 \<and> opcode AND 0xFF \<notin> {0x9E, 0xA1})
         \<or> (opcode AND 0xF000 = 0xF000
              \<and> opcode AND 0xFF \<notin> {0x07, 0x0A, 0x15, 0x18, 0x1E, 0x29, 0x33, 0x55, 0x65})"
  shows "executeInstruction opcode s = Inr (s\<lparr>pc := js_add (pc s) 2\<rparr>)"
  using assms
proof (elim disjE conjE)
  assume "opcode AND 0xF000 = 0x0000" "opcode \<notin> {0x0000, 0x00E0, 0x00EE}"
  then show ?thesis by (simp add: executeInstruction_def exec_0_def)
next
  assume "opcode AND 0xF000 = 0x8000"
    "opcode AND 0xF \<notin> {0x0, 0x1, 0x2, 0x3, 0x4, 0x5, 0x6, 0x7, 0xE}"
  then show ?thesis by (simp add: executeInstruction_def exec_8_unlisted del: insert_iff)
next
  assume "opcode AND 0xF000 = 0xE000" "opcode AND 0xFF \<notin> {0x9E, 0xA1}"
  then show ?thesis by (simp add: executeInstruction_def exec_E_def)
next
  assume "opcode AND 0xF000 = 0xF000"
    "opcode AND 0xFF \<notin> {0x07, 0x0A, 0x15, 0x18, 0x1E, 0x29, 0x33, 0x55, 0x65}"
  then show ?thesis by (simp add: executeInstruction_def exec_F_def)
qed

text \<open>The opcodes \<open>0x8128\<close>, \<open>0xE101\<close>, \<open>0xF100\<close> and \<open>0x0123\<close> at start-up.\<close>

theorem C10_unlisted_subcase_witness:
  "executeInstruction 0x8128 (machine0 (\<lambda>_. 0)) = Inr ((machine0 (\<lambda>_. 0))\<lparr>pc := Num 0x202\<rparr>)
   \<and> executeInstruction 0xE101 (machine0 (\<lambda>_. 0)) = Inr ((machine0 (\<lambda>_. 0))\<lparr>pc := Num 0x202\<rparr>)
   \<and> executeInstruction 0xF100 (machine0 (\<lambda>_. 0)) = Inr ((machine0 (\<lambda>_. 0))\<lparr>pc := Num 0x202\<rparr>)
   \<and> executeInstruction 0x0123 (machine0 (\<lambda>_. 0)) = Inr ((machine0 (\<lambda>_. 0))\<lparr>pc := Num 0x202\<rparr>)"
  using C10_unlisted_subcase_only_advances_pc [of "0x8128" "machine0 (\<lambda>_. 0)"]
        C10_unlisted_subcase_only_advances_pc [of "0xE101" "machine0 (\<lambda>_. 0)"]
        C10_unlisted_subcase_only_advances_pc [of "0xF100" "machine0 (\<lambda>_. 0)"]
        C10_unlisted_subcase_only_advances_pc [of "0x0123" "machine0 (\<lambda>_. 0)"]
  by (simp add: machine0_def new_CPU_def)

section \<open>A paused machine\<close>

lemma cycle_loop_paused: "paused s \<Longrightarrow> cycle_loop exec n s = Inr s"
  by (induction n) simp_all

text \<open>
  C8.  In every state with the paused flag set, \<open>cycle\<close> returns without a failure,
  and the program counter, the registers \<open>v\<close> and \<open>i\<close>, the memory, the call stack
  and both timers are what they were; the flag is still set.
\<close>

theorem C8_paused_cycle_changes_no_cpu_state:
  assumes "paused s"
  shows "\<exists>s'. cycle s = Inr s'
           \<and> pc s' = pc s \<and> v s' = v s \<and> i s' = i s \<and> memory s' = memory s
           \<and> stack s' = stack s \<and> delayTimer s' = delayTimer s \<and> soundTimer s' = soundTimer s
           \<and> paused s'"
  using assms by (simp add: cycle_def cycle_loop_paused playSound_def)

text \<open>A paused machine with delay timer 3 and sound timer 2.\<close>

theorem C8_paused_cycle_witness:
  "paused ((machine0 (\<lambda>_. 0))\<lparr>delayTimer := 3, soundTimer := 2, paused := True\<rparr>)
   \<and> \<not> isl (cycle ((machine0 (\<lambda>_. 0))\<lparr>delayTimer := 3, soundTimer := 2, paused := True\<rparr>))
   \<and> delayTimer (projr (cycle ((machine0 (\<lambda>_. 0))\<lparr>delayTimer := 3, soundTimer := 2, paused := True\<rparr>))) = 3
   \<and> soundTimer (projr (cycle ((machine0 (\<lambda>_. 0))\<lparr>delayTimer := 3, soundTimer := 2, paused := True\<rparr>))) = 2
   \<and> pc (projr (cycle ((machine0 (\<lambda>_. 0))\<lparr>delayTimer := 3, soundTimer := 2, paused := True\<rparr>))) = Num 0x200"
  using C8_paused_cycle_changes_no_cpu_state
          [of "(machine0 (\<lambda>_. 0))\<lparr>delayTimer := 3, soundTimer := 2, paused := True\<rparr>"]
  by (auto simp: machine0_def new_CPU_def)

section \<open>The unknown-opcode failure\<close>




text \<open>No instruction assigns \<open>speed\<close>: the bound of the loop in \<open>cycle\<close> is fixed at entry.\<close>

lemma speed_exec_0: "speed (exec_0 opcode s) = speed s"
  by (simp add: exec_0_def)

lemma speed_exec_E: "speed (exec_E opcode s) = speed s"
  by (simp add: exec_E_def Let_def)

lemma speed_exec_F: "speed (exec_F opcode s) = speed s"
  by (simp add: exec_F_def Let_def)

lemma executeInstruction_speed:
  assumes "executeInstruction opcode s = Inr s'"
  shows "speed s' = speed s"
  using assms
  by (auto simp: executeInstruction_def Let_def speed_exec_0 speed_exec_E speed_exec_F
           split: if_splits prod.splits)

lemma cycle_loop_add:
  "cycle_loop exec (m + n) s =
     (case cycle_loop exec m s of Inl e \<Rightarrow> Inl e | Inr s' \<Rightarrow> cycle_loop exec n s')"
  by (induction m arbitrary: s) (simp_all split: sum.splits)

text \<open>
  The loop of \<open>cycle\<close> has no handler: were the executor to fail in the state \<open>s1\<close>
  reached after \<open>m\<close> iterations, the loop would end with that failure whatever the
  number of iterations left.
\<close>

lemma cycle_loop_failure_ends_loop:
  assumes "cycle_loop exec m s = Inr s1" and "\<not> paused s1" and "exec (fetch s1) s1 = Inl e"
  shows "cycle_loop exec (m + Suc n) s = Inl e"
proof -
  from assms(2,3) have "cycle_loop exec (Suc n) s1 = Inl e"
    by simp
  with assms(1) show ?thesis
    by (simp only: cycle_loop_add [of exec m "Suc n" s] sum.case)
qed







section \<open>The key wait of \<open>Fx0A\<close>\<close>

lemma Fx0A_pauses:
  assumes "opcode AND 0xF000 = 0xF000" and "opcode AND 0xFF = 0x0A"
  shows "executeInstruction opcode s =
           Inr (s\<lparr>pc := js_add (pc s) 2, paused := True,
                  keyboard := (keyboard s)\<lparr>onNextKeyPress := Some (opx opcode)\<rparr>\<rparr>)"
  using assms by (simp add: executeInstruction_def exec_F_def Let_def)

lemma onKeyDown_resolves_wait:
  assumes "onNextKeyPress (keyboard s) = Some x" and "KEYMAP which = Some k" and "k \<noteq> 0"
  shows "v (onKeyDown which s) x = to_uint8 k
         \<and> \<not> paused (onKeyDown which s)
         \<and> onNextKeyPress (keyboard (onKeyDown which s)) = None"
  using assms by (simp add: onKeyDown_def Let_def to_uint8_opt_def)

lemma onKeyDown_key_zero_keeps_waiting:
  assumes "onNextKeyPress (keyboard s) = Some x" and "KEYMAP which = Some 0"
  shows "v (onKeyDown which s) = v s
         \<and> paused (onKeyDown which s) = paused s
         \<and> onNextKeyPress (keyboard (onKeyDown which s)) = Some x"
  using assms by (simp add: onKeyDown_def Let_def)

text \<open>
  C5.  The claim: after \<open>Fx0A\<close> has paused the machine with pending register \<open>x\<close>, the
  next key-down event whose code maps to any key value \<open>k\<close> in \<open>0x0..0xF\<close> sets
  register \<open>x\<close> to \<open>k\<close>, clears the paused flag and clears the callback.  Key code 88
  maps to the key value 0.  After \<open>0xF30A\<close> with 7 in register 3, the key-down event
  of code 88 leaves the machine paused, register 3 at 7 and the callback in place.
  (\<open>onKeyDown_resolves_wait\<close> shows the claim for every mapped key other than 0.)
\<close>

theorem C5_key_zero_does_not_resume:
  "KEYMAP 88 = Some 0
   \<and> executeInstruction 0xF30A ((machine0 (\<lambda>_. 0))\<lparr>v := (\<lambda>_. 0)(3 := 7)\<rparr>)
       = Inr ((machine0 (\<lambda>_. 0))
                \<lparr>v := (\<lambda>_. 0)(3 := 7), pc := Num 0x202, paused := True,
                  keyboard := new_Keyboard\<lparr>onNextKeyPress := Some 3\<rparr>\<rparr>)
   \<and> paused (onKeyDown 88 ((machine0 (\<lambda>_. 0))
                \<lparr>v := (\<lambda>_. 0)(3 := 7), pc := Num 0x202, paused := True,
                  keyboard := new_Keyboard\<lparr>onNextKeyPress := Some 3\<rparr>\<rparr>))
   \<and> v (onKeyDown 88 ((machine0 (\<lambda>_. 0))
                \<lparr>v := (\<lambda>_. 0)(3 := 7), pc := Num 0x202, paused := True,
                  keyboard := new_Keyboard\<lparr>onNextKeyPress := Some 3\<rparr>\<rparr>)) 3 = 7
   \<and> onNextKeyPress (keyboard (onKeyDown 88 ((machine0 (\<lambda>_. 0))
                \<lparr>v := (\<lambda>_. 0)(3 := 7), pc := Num 0x202, paused := True,
                  keyboard := new_Keyboard\<lparr>onNextKeyPress := Some 3\<rparr>\<rparr>))) = Some 3"
  by (simp add: executeInstruction_def exec_F_def Let_def opx_def onKeyDown_def KEYMAP_def
        machine0_def new_CPU_def)

section \<open>The frame timer of chip8.js\<close>

lemma step_keeps_then_time:
  assumes "step t g = Inr g'"
  shows "then_time g' = then_time g"
  using assms by (auto simp: step_def Let_def split: if_splits sum.splits)

text \<open>
  A frame of a running machine whose program counter points beyond the memory: every
  fetch reads \<open>undefined\<close> twice, the opcode is 0, and each instruction only advances
  the program counter.
\<close>

lemma fetch_beyond_memory:
  assumes "pc s = Num p" and "int (length (memory s)) \<le> p"
  shows "fetch s = 0"
  using assms by (simp add: fetch_def u8_get_def to_int32_def)

lemma executeInstruction_zero:
  "executeInstruction 0 s = Inr (s\<lparr>pc := js_add (pc s) 2\<rparr>)"
  by (simp add: executeInstruction_def exec_0_def)

lemma cycle_loop_idle:
  assumes "\<not> paused s" and "pc s = Num p" and "int (length (memory s)) \<le> p"
  shows "cycle_loop executeInstruction n s = Inr (s\<lparr>pc := Num (p + 2 * int n)\<rparr>)"
  using assms
proof (induction n arbitrary: s p)
  case 0
  then show ?case by simp
next
  case (Suc n)
  let ?s1 = "s\<lparr>pc := Num (p + 2)\<rparr>"
  have "executeInstruction (fetch s) s = Inr ?s1"
    using Suc.prems by (simp add: fetch_beyond_memory executeInstruction_zero)
  moreover have "cycle_loop executeInstruction n ?s1 = Inr (?s1\<lparr>pc := Num (p + 2 + 2 * int n)\<rparr>)"
    using Suc.prems by (intro Suc.IH) simp_all
  ultimately show ?case
    using Suc.prems by (simp add: algebra_simps)
qed

lemma cycle_idle_frame:
  assumes "\<not> paused s" and "speed s = 10" and "pc s = Num p" and "int (length (memory s)) \<le> p"
  shows "\<exists>s'. cycle s = Inr s' \<and> pc s' = Num (p + 20) \<and> \<not> paused s' \<and> speed s' = 10
              \<and> memory s' = memory s"
  using assms
  by (simp add: cycle_def cycle_loop_idle [of s p] Let_def updateTimers_def playSound_def)

lemma step_idle_frame:
  assumes "16 < t - then_time g" and "fpsInterval g = 1000 / 60"
    and "\<not> paused (cpu g)" and "speed (cpu g) = 10"
    and "pc (cpu g) = Num p" and "int (length (memory (cpu g))) \<le> p"
  shows "\<exists>g'. step t g = Inr g' \<and> pc (cpu g') = Num (p + 20) \<and> then_time g' = then_time g
              \<and> \<not> paused (cpu g') \<and> speed (cpu g') = 10 \<and> memory (cpu g') = memory (cpu g)
              \<and> fpsInterval g' = fpsInterval g"
proof -
  obtain s' where s': "cycle (cpu g) = Inr s'" "pc s' = Num (p + 20)" "\<not> paused s'"
      "speed s' = 10" "memory s' = memory (cpu g)"
    using cycle_idle_frame [OF assms(3-6)] by blast
  have "(1000 / 60 :: rat) < of_int (t - then_time g)"
  proof -
    have "(1000 / 60 :: rat) < of_int 17" by simp
    also have "\<dots> \<le> of_int (t - then_time g)"
      using assms(1) by simp
    finally show ?thesis .
  qed
  then have "fpsInterval g < of_int (t - then_time g)"
    using assms(2) by simp
  then show ?thesis
    using s' by (simp add: step_def Let_def)
qed


lemma step_skips_frame:
  assumes "t - then_time g \<le> 16" and "fpsInterval g = 1000 / 60"
  shows "step t g = Inr (g\<lparr>now := t, elapsed := t - then_time g, loop := Suc (loop g)\<rparr>)"
proof -
  have "of_int (t - then_time g) \<le> (of_int 16 :: rat)"
    using assms(1) by (simp only: of_int_le_iff)
  also have "\<dots> < 1000 / 60" by simp
  finally have "\<not> (1000 / 60 :: rat) < of_int (t - then_time g)" by simp
  then show ?thesis
    using assms(2) by (simp add: step_def Let_def)
qed

text \<open>
  C4.  The claim: a frame is processed only when at least one frame interval has
  elapsed since the previous processed frame.  \<open>step\<close> measures \<open>elapsed\<close> from \<open>then\<close>,
  which \<open>init\<close> sets and \<open>step\<close> never assigns (\<open>step_keeps_then_time\<close>).  With \<open>init\<close> at
  clock reading 0, the call of \<open>step\<close> at 17 ms processes a frame (ten instructions,
  \<open>pc\<close> from \<open>0x200\<close> to \<open>0x214\<close>) and the call at 18 ms, one millisecond later,
  processes another (\<open>pc\<close> at \<open>0x228\<close>).
\<close>

theorem C4_two_frames_one_millisecond_apart:
  "then_time (init 0 (\<lambda>_. 0)) = 0
   \<and> pc (cpu (init 0 (\<lambda>_. 0))) = Num 0x200
   \<and> \<not> isl (step 17 (init 0 (\<lambda>_. 0)))
   \<and> pc (cpu (projr (step 17 (init 0 (\<lambda>_. 0))))) = Num 0x214
   \<and> then_time (projr (step 17 (init 0 (\<lambda>_. 0)))) = 0
   \<and> \<not> isl (step 18 (projr (step 17 (init 0 (\<lambda>_. 0)))))
   \<and> pc (cpu (projr (step 18 (projr (step 17 (init 0 (\<lambda>_. 0))))))) = Num 0x228"
proof -
  let ?g0 = "init 0 (\<lambda>_. 0)"
  have g0: "then_time ?g0 = 0" "fpsInterval ?g0 = 1000 / 60" "\<not> paused (cpu ?g0)" "speed (cpu ?g0) = 10"
    "pc (cpu ?g0) = Num 0x200" "int (length (memory (cpu ?g0))) \<le> 0x200"
    by (simp_all add: init_def loadSpritesIntoMemory_def new_CPU_def length_store_from)
  obtain g1 where g1: "step 17 ?g0 = Inr g1" "pc (cpu g1) = Num 0x214" "then_time g1 = 0"
      "\<not> paused (cpu g1)" "speed (cpu g1) = 10" "int (length (memory (cpu g1))) \<le> 0x214"
      "fpsInterval g1 = 1000 / 60"
    using step_idle_frame [where g = ?g0 and t = 17 and p = "0x200"] g0 by auto
  obtain g2 where g2: "step 18 g1 = Inr g2" "pc (cpu g2) = Num 0x228"
    using step_idle_frame [where g = g1 and t = 18 and p = "0x214"] g1 by auto
  show ?thesis
    using g0 g1 g2 by simp
qed

section \<open>The sprite loops of \<open>Dxyn\<close>\<close>

text \<open>
  With \<open>x\<close> other than \<open>0xF\<close> the loops leave register \<open>x\<close> alone, and what they do
  to the renderer is the list \<open>sprite_calls\<close> of calls taken from the value of
  register \<open>x\<close>, for any method \<open>sp\<close>.
\<close>

lemma apply_calls_append:
  "apply_calls sp (xs @ ys) r = apply_calls sp ys (apply_calls sp xs r)"
  by (simp add: apply_calls_def)

lemma draw_col_fold:
  assumes "x \<noteq> 0xF" and "uint (vv x) = w"
  shows "\<exists>vv'. foldl (draw_col sp x sprite row) (vv, r) cs
                  = (vv', apply_calls sp
                            (if to_int32 sprite AND 0x80 > 0
                             then map (\<lambda>col. (w + int col, w + int row)) cs else []) r)
               \<and> uint (vv' x) = w"
  using assms
proof (induction cs arbitrary: vv r)
  case Nil
  then show ?case by (simp add: apply_calls_def)
next
  case (Cons col cs)
  obtain vv1 r1 where step: "draw_col sp x sprite row (vv, r) col = (vv1, r1)"
    by (cases "draw_col sp x sprite row (vv, r) col")
  have vv1: "uint (vv1 x) = w"
    using step Cons.prems by (auto simp: draw_col_def split: if_splits prod.splits)
  have r1: "r1 = (if to_int32 sprite AND 0x80 > 0
                  then snd (sp (w + int col) (w + int row) r) else r)"
    using step Cons.prems by (auto simp: draw_col_def split: if_splits prod.splits)
  from Cons.IH [where vv = vv1 and r = r1] Cons.prems(1) vv1 step r1 show ?case
    by (auto simp: apply_calls_def)
qed

lemma draw_row_calls:
  assumes "x \<noteq> 0xF" and "uint (vv x) = w"
  shows "\<exists>vv'. draw_row sp x mem ireg (vv, r) row
                  = (vv', apply_calls sp (row_calls w (u8_get mem (ireg + int row)) row) r)
               \<and> uint (vv' x) = w"
  using draw_col_fold [where x = x and vv = vv and w = w and sp = sp and r = r and row = row
          and sprite = "u8_get mem (ireg + int row)" and cs = "[0..<8]"] assms
  by (simp add: draw_row_def row_calls_def Let_def)

lemma draw_row_fold:
  assumes "x \<noteq> 0xF" and "uint (vv x) = w"
  shows "\<exists>vv'. foldl (draw_row sp x mem ireg) (vv, r) rws
                  = (vv', apply_calls sp
                            (concat (map (\<lambda>row. row_calls w (u8_get mem (ireg + int row)) row) rws)) r)
               \<and> uint (vv' x) = w"
  using assms
proof (induction rws arbitrary: vv r)
  case Nil
  then show ?case by (simp add: apply_calls_def)
next
  case (Cons row rws)
  obtain vv1 where step: "draw_row sp x mem ireg (vv, r) row
        = (vv1, apply_calls sp (row_calls w (u8_get mem (ireg + int row)) row) r)"
      and vv1: "uint (vv1 x) = w"
    using draw_row_calls [where x = x and vv = vv and w = w and sp = sp and r = r and row = row
            and mem = mem and ireg = ireg] Cons.prems
    by blast
  from Cons.IH [where vv = vv1
          and r = "apply_calls sp (row_calls w (u8_get mem (ireg + int row)) row) r"]
    Cons.prems(1) vv1 step
  show ?case
    by (simp add: apply_calls_append)
qed

lemma draw_calls:
  assumes "opx opcode \<noteq> 0xF"
  shows "snd (draw sp opcode mem ireg (vv, r))
           = apply_calls sp
               (sprite_calls (uint (vv (opx opcode))) mem ireg (nat (opcode AND 0xF))) r"
proof -
  have "uint ((vv(0xF := 0)) (opx opcode)) = uint (vv (opx opcode))"
    using assms by simp
  from draw_row_fold [where x = "opx opcode" and vv = "vv(0xF := 0)"
          and w = "uint (vv (opx opcode))" and sp = sp and r = r and mem = mem and ireg = ireg
          and rws = "[0..<nat (opcode AND 0xF)]"] assms this
  show ?thesis
    by (auto simp: draw_def sprite_calls_def Let_def)
qed

lemma apply_calls_logged:
  "apply_calls (logged sp) calls (r, acc) = (apply_calls sp calls r, acc @ calls)"
proof (induction calls arbitrary: r acc)
  case Nil
  then show ?case by (simp add: apply_calls_def)
next
  case (Cons ab calls)
  have "apply_calls (logged sp) (ab # calls) (r, acc)
          = apply_calls (logged sp) calls (snd (sp (fst ab) (snd ab) r), acc @ [ab])"
    by (simp add: apply_calls_def logged_def split: prod.splits)
  then show ?case
    by (simp add: Cons.IH) (simp add: apply_calls_def)
qed

lemma draw_logged_calls:
  assumes "opx opcode \<noteq> 0xF"
  shows "snd (snd (draw (logged sp) opcode mem ireg (vv, r, [])))
           = sprite_calls (uint (vv (opx opcode))) mem ireg (nat (opcode AND 0xF))"
  using draw_calls [OF assms, of "logged sp" mem ireg vv "(r, [])"]
  by (simp add: apply_calls_logged)

text \<open>
  For any register index \<open>x\<close>, also \<open>0xF\<close>: with \<open>origins\<close> a set of values that
  holds the current value of register \<open>x\<close> and is kept by the assignment
  \<open>v[0xF] = 1\<close>, every recorded call has both coordinates offset from one member of
  \<open>origins\<close>.
\<close>

lemma draw_col_logged_fold:
  assumes keep: "\<And>u :: regs. uint (u x) \<in> origins \<Longrightarrow> uint ((u(0xF := 1)) x) \<in> origins"
    and "uint (vv x) \<in> origins"
  shows "\<exists>vv' r' calls'.
           foldl (draw_col (logged sp) x sprite row) (vv, r, calls) cs = (vv', r', calls')
           \<and> uint (vv' x) \<in> origins
           \<and> set calls' \<subseteq> set calls
                \<union> (\<lambda>(w, col). (w + int col, w + int row)) ` (origins \<times> set cs)"
  using assms(2)
proof (induction cs arbitrary: vv r calls)
  case Nil
  then show ?case by simp
next
  case (Cons col cs)
  let ?f = "\<lambda>(w, col). (w + int col, w + int row)"
  obtain vv1 r1 calls1 where step:
    "draw_col (logged sp) x sprite row (vv, r, calls) col = (vv1, r1, calls1)"
    by (cases "draw_col (logged sp) x sprite row (vv, r, calls) col") auto
  have vv1: "uint (vv1 x) \<in> origins"
    using step Cons.prems keep [of vv]
    by (auto simp: draw_col_def logged_def split: if_splits prod.splits)
  have "calls1 = calls \<or> calls1 = calls @ [(uint (vv x) + int col, uint (vv x) + int row)]"
    using step by (auto simp: draw_col_def logged_def split: if_splits prod.splits)
  moreover have "(uint (vv x) + int col, uint (vv x) + int row) \<in> ?f ` (origins \<times> {col})"
    using Cons.prems by (intro image_eqI [where x = "(uint (vv x), col)"]) simp_all
  ultimately have calls1: "set calls1 \<subseteq> set calls \<union> ?f ` (origins \<times> {col})"
    by (elim disjE) simp_all
  obtain vv' r' calls' where rest:
    "foldl (draw_col (logged sp) x sprite row) (vv1, r1, calls1) cs = (vv', r', calls')"
    "uint (vv' x) \<in> origins"
    "set calls' \<subseteq> set calls1 \<union> ?f ` (origins \<times> set cs)"
    using Cons.IH [where vv = vv1 and r = r1 and calls = calls1] vv1 by blast
  have "origins \<times> set (col # cs) = origins \<times> {col} \<union> origins \<times> set cs"
    by auto
  then have "?f ` (origins \<times> set (col # cs)) = ?f ` (origins \<times> {col}) \<union> ?f ` (origins \<times> set cs)"
    by (simp only: image_Un)
  with rest(3) calls1 have "set calls' \<subseteq> set calls \<union> ?f ` (origins \<times> set (col # cs))"
    by blast
  with rest(1,2) step show ?case by simp
qed

lemma draw_row_logged_step:
  assumes keep: "\<And>u :: regs. uint (u x) \<in> origins \<Longrightarrow> uint ((u(0xF := 1)) x) \<in> origins"
    and "uint (vv x) \<in> origins"
  shows "\<exists>vv' r' calls'.
           draw_row (logged sp) x mem ireg (vv, r, calls) row = (vv', r', calls')
           \<and> uint (vv' x) \<in> origins
           \<and> set calls' \<subseteq> set calls
                \<union> (\<lambda>(w, col). (w + int col, w + int row)) ` (origins \<times> {0..<8})"
proof -
  have "draw_row (logged sp) x mem ireg (vv, r, calls) row
          = foldl (draw_col (logged sp) x (u8_get mem (ireg + int row)) row) (vv, r, calls) [0..<8]"
    by (simp only: draw_row_def Let_def)
  moreover have "set [0..<8] = {0..<8::nat}"
    by (rule set_upt)
  ultimately show ?thesis
    using draw_col_logged_fold [where x = x and origins = origins and vv = vv and sp = sp
            and sprite = "u8_get mem (ireg + int row)" and row = row and r = r
            and calls = calls and cs = "[0..<8]"] keep assms(2)
    by (simp only:)
qed

lemma draw_row_logged_fold:
  assumes keep: "\<And>u :: regs. uint (u x) \<in> origins \<Longrightarrow> uint ((u(0xF := 1)) x) \<in> origins"
    and "uint (vv x) \<in> origins"
  shows "\<exists>vv' r' calls'.
           foldl (draw_row (logged sp) x mem ireg) (vv, r, calls) rws = (vv', r', calls')
           \<and> uint (vv' x) \<in> origins
           \<and> set calls' \<subseteq> set calls
                \<union> (\<lambda>(w, col, row). (w + int col, w + int row))
                     ` (origins \<times> {0..<8} \<times> set rws)"
  using assms(2)
proof (induction rws arbitrary: vv r calls)
  case Nil
  then show ?case by simp
next
  case (Cons row rws)
  let ?f = "\<lambda>(w, col). (w + int col, w + int row)"
  let ?g = "\<lambda>(w, col, row). (w + int col, w + int row)"
  obtain vv1 r1 calls1 where step:
    "draw_row (logged sp) x mem ireg (vv, r, calls) row = (vv1, r1, calls1)"
    "uint (vv1 x) \<in> origins"
    "set calls1 \<subseteq> set calls \<union> ?f ` (origins \<times> {0..<8})"
    using draw_row_logged_step [where x = x and origins = origins and vv = vv and sp = sp
            and mem = mem and ireg = ireg and row = row and r = r and calls = calls]
          keep Cons.prems
    by blast
  obtain vv' r' calls' where rest:
    "foldl (draw_row (logged sp) x mem ireg) (vv1, r1, calls1) rws = (vv', r', calls')"
    "uint (vv' x) \<in> origins"
    "set calls' \<subseteq> set calls1 \<union> ?g ` (origins \<times> {0..<8} \<times> set rws)"
    using Cons.IH [where vv = vv1 and r = r1 and calls = calls1] step(2) by blast
  have "?f ` (origins \<times> {0..<8}) \<subseteq> ?g ` (origins \<times> {0..<8} \<times> set (row # rws))"
  proof (rule subsetI)
    fix ab
    assume "ab \<in> ?f ` (origins \<times> {0..<8})"
    then obtain w col where "ab = (w + int col, w + int row)" "w \<in> origins" "col \<in> {0..<8}"
      by auto
    then show "ab \<in> ?g ` (origins \<times> {0..<8} \<times> set (row # rws))"
      by (intro image_eqI [where x = "(w, col, row)"]) simp_all
  qed
  moreover have "?g ` (origins \<times> {0..<8} \<times> set rws)
      \<subseteq> ?g ` (origins \<times> {0..<8} \<times> set (row # rws))"
    by (intro image_mono Sigma_mono) auto
  ultimately have "set calls' \<subseteq> set calls \<union> ?g ` (origins \<times> {0..<8} \<times> set (row # rws))"
    using rest(3) step(3) by (meson Un_mono order_trans sup.boundedI sup_ge1 sup_ge2)
  moreover have "foldl (draw_row (logged sp) x mem ireg) (vv, r, calls) (row # rws) = (vv', r', calls')"
    using rest(1) step(1) by simp
  ultimately show ?case
    using rest(2) by (intro exI conjI)
qed

lemma draw_logged_origin:
  "set (snd (snd (draw (logged sp) opcode mem ireg (vv, r, []))))
     \<subseteq> {(w + int col, w + int row) | w col row.
          w \<in> (if opx opcode = 0xF then {0, 1} else {uint (vv (opx opcode))})
          \<and> col < 8 \<and> row < nat (opcode AND 0xF)}"
proof -
  let ?x = "opx opcode"
  let ?origins = "if ?x = 0xF then {0, 1} else {uint (vv ?x)}"
  let ?g = "\<lambda>(w, col, row). (w + int col, w + int row)"
  have keep: "uint ((u(0xF := 1)) ?x) \<in> ?origins" if "uint (u ?x) \<in> ?origins" for u :: regs
    using that by auto
  have start: "uint ((vv(0xF := 0)) ?x) \<in> ?origins"
    by auto
  obtain vv' r' calls' where run:
    "foldl (draw_row (logged sp) ?x mem ireg) (vv(0xF := 0), r, []) [0..<nat (opcode AND 0xF)]
       = (vv', r', calls')"
    and calls': "set calls' \<subseteq> set []
        \<union> ?g ` (?origins \<times> {0..<8} \<times> set [0..<nat (opcode AND 0xF)])"
    using draw_row_logged_fold [where x = ?x and origins = ?origins and vv = "vv(0xF := 0)"
            and sp = sp and mem = mem and ireg = ireg and r = r and calls = "[]"
            and rws = "[0..<nat (opcode AND 0xF)]"] keep start
    by blast
  have log: "snd (snd (draw (logged sp) opcode mem ireg (vv, r, []))) = calls'"
    using run by (simp add: draw_def Let_def)
  show ?thesis
  proof (rule subsetI)
    fix ab
    assume "ab \<in> set (snd (snd (draw (logged sp) opcode mem ireg (vv, r, []))))"
    with log have "ab \<in> set calls'"
      by simp
    moreover have "set calls'
        \<subseteq> ?g ` (?origins \<times> {0..<8} \<times> set [0..<nat (opcode AND 0xF)])"
      using calls' by (simp only: list.set(1) Un_empty_left)
    ultimately have "ab \<in> ?g ` (?origins \<times> {0..<8} \<times> set [0..<nat (opcode AND 0xF)])"
      by (rule rev_subsetD)
    then obtain w col row where "ab = (w + int col, w + int row)" "w \<in> ?origins"
        "col < 8" "row < nat (opcode AND 0xF)"
    proof (elim imageE SigmaE)
      fix p w q col row
      assume that: "\<And>w col row. ab = (w + int col, w + int row) \<Longrightarrow> w \<in> ?origins \<Longrightarrow>
                       col < 8 \<Longrightarrow> row < nat (opcode AND 0xF) \<Longrightarrow> thesis"
        and "ab = ?g p" "w \<in> ?origins" "p = (w, q)" "col \<in> {0..<8}"
        "row \<in> set [0..<nat (opcode AND 0xF)]" "q = (col, row)"
      then show thesis
        by (intro that [of w col row]) simp_all
    qed
    then show "ab \<in> {(w + int col, w + int row) | w col row.
          w \<in> ?origins \<and> col < 8 \<and> row < nat (opcode AND 0xF)}"
      by blast
  qed
qed

lemma high_byte_low_nibble:
  fixes opcode :: int
  shows "opcode AND 0x0F00 = (opcode AND 0xFF0F) AND 0x0F00"
    and "opcode AND 0xF = (opcode AND 0xFF0F) AND 0xF"
    and "opcode AND 0xF000 = (opcode AND 0xFF0F) AND 0xF000"
  by (simp_all add: and.assoc)

lemma draw_ignores_y:
  assumes "opcode' AND 0xFF0F = opcode AND 0xFF0F"
  shows "draw sp opcode' mem ireg vr = draw sp opcode mem ireg vr"
proof -
  have "opcode' AND 0x0F00 = opcode AND 0x0F00" "opcode' AND 0xF = opcode AND 0xF"
    using assms high_byte_low_nibble [of opcode] high_byte_low_nibble [of opcode'] by simp_all
  then show ?thesis
    by (simp add: draw_def opx_def)
qed

lemma executeInstruction_D:
  assumes "opcode AND 0xF000 = 0xD000"
  shows "executeInstruction opcode s =
           (case draw setPixel opcode (memory s) (i s) (v s, renderer s) of
              (vv, r) \<Rightarrow> Inr (s\<lparr>pc := js_add (pc s) 2, v := vv, renderer := r\<rparr>))"
  using assms by (simp add: executeInstruction_def Let_def)

text \<open>The 16 bytes of memory after \<open>loadSpritesIntoMemory\<close>.\<close>

lemma store_sprites_in_16_bytes:
  "store_from 0 sprites (replicate 16 0)
     = [0xF0, 0x90, 0x90, 0x90, 0xF0, 0x20, 0x60, 0x20, 0x20, 0x70, 0xF0, 0x10, 0xF0, 0x80, 0xF0, 0xF0]"
  by code_simp

lemma sprites_in_16_bytes:
  "memory (loadSpritesIntoMemory (machine0 rnd))
     = [0xF0, 0x90, 0x90, 0x90, 0xF0, 0x20, 0x60, 0x20, 0x20, 0x70, 0xF0, 0x10, 0xF0, 0x80, 0xF0, 0xF0]"
  by (simp add: loadSpritesIntoMemory_def machine0_def new_CPU_def store_sprites_in_16_bytes)

text \<open>
  For every register index \<open>x\<close>: the loops run with a recording method make exactly
  the calls of \<open>sprite_run\<close>, the value followed by \<open>sprite_run\<close> being that of
  register \<open>x\<close> throughout, and the recording changes nothing else.
\<close>

lemma sprite_run_append:
  "sprite_run sp x (ps @ qs) st = sprite_run sp x qs (sprite_run sp x ps st)"
  by (induction sp x ps st rule: sprite_run.induct) (simp_all split: prod.splits)

lemma sprite_run_renderer:
  "\<exists>new. snd (snd (sprite_run sp x ps (w, r, calls))) = calls @ new
         \<and> fst (snd (sprite_run sp x ps (w, r, calls))) = apply_calls sp new r"
proof (induction ps arbitrary: w r calls)
  case Nil
  then show ?case by (simp add: apply_calls_def)
next
  case (Cons p ps)
  obtain row col where p: "p = (row, col)" by (cases p)
  obtain erased r1 where call: "sp (w + int col) (w + int row) r = (erased, r1)"
    by (cases "sp (w + int col) (w + int row) r")
  let ?w1 = "if erased \<and> x = 0xF then 1 else w"
  let ?c = "(w + int col, w + int row)"
  obtain new where new:
    "snd (snd (sprite_run sp x ps (?w1, r1, calls @ [?c]))) = (calls @ [?c]) @ new"
    "fst (snd (sprite_run sp x ps (?w1, r1, calls @ [?c]))) = apply_calls sp new r1"
    using Cons.IH [of ?w1 r1 "calls @ [?c]"] by blast
  have "apply_calls sp (?c # new) r = apply_calls sp new r1"
    using call by (simp add: apply_calls_def)
  with new p call show ?case
    by (intro exI [of _ "?c # new"]) simp
qed

lemma sprite_trace_renderer:
  "fst (snd (sprite_run sp x ps (w, r, []))) = apply_calls sp (sprite_trace sp x ps w r) r"
  using sprite_run_renderer [of sp x ps w r "[]"] by (auto simp: sprite_trace_def)

lemma draw_col_clear:
  assumes "\<not> to_int32 sprite AND 0x80 > 0"
  shows "foldl (draw_col sp x sprite row) st cs = st"
  using assms by (induction cs) (simp_all add: draw_col_def split: prod.splits)

lemma draw_col_logged_step:
  assumes "to_int32 sprite AND 0x80 > 0"
  shows "origin_state x (draw_col (logged sp) x sprite row st col)
           = sprite_run sp x [(row, col)] (origin_state x st)"
proof -
  obtain vv r calls where st: "st = (vv, r, calls)" by (cases st)
  obtain erased r1 where call: "sp (uint (vv x) + int col) (uint (vv x) + int row) r = (erased, r1)"
    by (cases "sp (uint (vv x) + int col) (uint (vv x) + int row) r")
  show ?thesis
    using assms st call by (simp add: draw_col_def logged_def origin_state_def)
qed

lemma draw_col_logged_run:
  assumes "to_int32 sprite AND 0x80 > 0"
  shows "origin_state x (foldl (draw_col (logged sp) x sprite row) st cs)
           = sprite_run sp x (map (\<lambda>col. (row, col)) cs) (origin_state x st)"
proof (induction cs arbitrary: st)
  case Nil
  then show ?case by simp
next
  case (Cons col cs)
  have "sprite_run sp x (map (\<lambda>col. (row, col)) (col # cs)) (origin_state x st)
          = sprite_run sp x (map (\<lambda>col. (row, col)) cs)
              (sprite_run sp x [(row, col)] (origin_state x st))"
    using sprite_run_append [of sp x "[(row, col)]" "map (\<lambda>col. (row, col)) cs"] by simp
  then show ?case
    by (simp add: Cons.IH draw_col_logged_step [OF assms])
qed

lemma draw_row_logged_run:
  "origin_state x (draw_row (logged sp) x mem ireg st row)
     = sprite_run sp x
         (if to_int32 (u8_get mem (ireg + int row)) AND 0x80 > 0
          then map (\<lambda>col. (row, col)) [0..<8] else [])
         (origin_state x st)"
  by (simp add: draw_row_def Let_def draw_col_logged_run draw_col_clear del: upt_Suc)

lemma draw_rows_logged_run:
  "origin_state x (foldl (draw_row (logged sp) x mem ireg) st rws)
     = sprite_run sp x
         (concat (map (\<lambda>row. if to_int32 (u8_get mem (ireg + int row)) AND 0x80 > 0
                             then map (\<lambda>col. (row, col)) [0..<8] else []) rws))
         (origin_state x st)"
proof (induction rws arbitrary: st)
  case Nil
  then show ?case by simp
next
  case (Cons row rws)
  show ?case
    by (simp only: foldl_Cons list.map concat.simps sprite_run_append Cons.IH draw_row_logged_run)
qed

lemma draw_logged_run:
  "origin_state (opx opcode) (draw (logged sp) opcode mem ireg (vv, r, []))
     = sprite_run sp (opx opcode) (sprite_positions mem ireg (nat (opcode AND 0xF)))
         (if opx opcode = 0xF then 0 else uint (vv (opx opcode)), r, [])"
proof -
  have "origin_state (opx opcode) (vv(0xF := 0), r, [])
          = (if opx opcode = 0xF then 0 else uint (vv (opx opcode)), r, [])"
    by (simp add: origin_state_def)
  then show ?thesis
    by (simp add: draw_def Let_def sprite_positions_def draw_rows_logged_run)
qed

lemma draw_col_unlogged:
  "(fst (draw_col (logged sp) x sprite row st col),
    fst (snd (draw_col (logged sp) x sprite row st col)))
     = draw_col sp x sprite row (fst st, fst (snd st)) col"
proof -
  obtain vv r calls where st: "st = (vv, r, calls)" by (cases st)
  obtain erased r1 where call: "sp (uint (vv x) + int col) (uint (vv x) + int row) r = (erased, r1)"
    by (cases "sp (uint (vv x) + int col) (uint (vv x) + int row) r")
  show ?thesis
    using st call by (simp add: draw_col_def logged_def)
qed

lemma draw_cols_unlogged:
  "(fst (foldl (draw_col (logged sp) x sprite row) st cs),
    fst (snd (foldl (draw_col (logged sp) x sprite row) st cs)))
     = foldl (draw_col sp x sprite row) (fst st, fst (snd st)) cs"
proof (induction cs arbitrary: st)
  case Nil
  then show ?case by simp
next
  case (Cons col cs)
  show ?case
    by (simp only: foldl_Cons Cons.IH draw_col_unlogged)
qed

lemma draw_row_unlogged:
  "(fst (draw_row (logged sp) x mem ireg st row),
    fst (snd (draw_row (logged sp) x mem ireg st row)))
     = draw_row sp x mem ireg (fst st, fst (snd st)) row"
  by (simp only: draw_row_def Let_def draw_cols_unlogged)

lemma draw_rows_unlogged:
  "(fst (foldl (draw_row (logged sp) x mem ireg) st rws),
    fst (snd (foldl (draw_row (logged sp) x mem ireg) st rws)))
     = foldl (draw_row sp x mem ireg) (fst st, fst (snd st)) rws"
proof (induction rws arbitrary: st)
  case Nil
  then show ?case by simp
next
  case (Cons row rws)
  show ?case
    by (simp only: foldl_Cons Cons.IH draw_row_unlogged)
qed

lemma draw_unlogged:
  "(fst (draw (logged sp) opcode mem ireg (vv, r, calls)),
    fst (snd (draw (logged sp) opcode mem ireg (vv, r, calls))))
     = draw sp opcode mem ireg (vv, r)"
  using draw_rows_unlogged [of sp "opx opcode" mem ireg "(vv(0xF := 0), r, calls)"
          "[0..<nat (opcode AND 0xF)]"]
  by (simp add: draw_def Let_def)

lemma draw_trace:
  "snd (snd (draw (logged sp) opcode mem ireg (vv, r, [])))
     = sprite_trace sp (opx opcode) (sprite_positions mem ireg (nat (opcode AND 0xF)))
         (if opx opcode = 0xF then 0 else uint (vv (opx opcode))) r"
proof -
  have "snd (snd (origin_state (opx opcode) (draw (logged sp) opcode mem ireg (vv, r, []))))
          = snd (snd (draw (logged sp) opcode mem ireg (vv, r, [])))"
    by (simp add: origin_state_def split: prod.splits)
  then show ?thesis
    by (simp add: draw_logged_run sprite_trace_def)
qed

lemma draw_renderer:
  "snd (draw sp opcode mem ireg (vv, r))
     = apply_calls sp
         (sprite_trace sp (opx opcode) (sprite_positions mem ireg (nat (opcode AND 0xF)))
            (if opx opcode = 0xF then 0 else uint (vv (opx opcode))) r) r"
proof -
  have "snd (draw sp opcode mem ireg (vv, r))
          = fst (snd (draw (logged sp) opcode mem ireg (vv, r, [])))"
    using draw_unlogged [of sp opcode mem ireg vv r "[]"] by (metis snd_conv)
  also have "\<dots> = fst (snd (origin_state (opx opcode)
                                (draw (logged sp) opcode mem ireg (vv, r, []))))"
    by (simp add: origin_state_def split: prod.splits)
  finally show ?thesis
    by (simp add: draw_logged_run sprite_trace_renderer)
qed

text \<open>
  C7.  Every call that \<open>Dxyn\<close> makes is \<open>setPixel(v[x] + col, v[x] + row)\<close>, with
  \<open>v[x]\<close> read at the call; register \<open>y\<close> is not used.  In six parts.  Two \<open>Dxyn\<close>
  opcodes that differ only in the nibble \<open>y\<close> have the same effect.  For \<open>x\<close> other
  than \<open>0xF\<close> the renderer after the instruction is the renderer before it with the
  calls \<open>sprite_calls\<close> made in order, whose coordinates are the value of register
  \<open>x\<close> plus the column and the same value plus the row; the same holds of the loops
  for any method in place of \<open>setPixel\<close>.  For every \<open>x\<close>, \<open>0xF\<close> included, the calls
  the loops make are exactly \<open>sprite_trace\<close>: one call for each column of each row
  whose byte has bit 7 set, in order, each with both coordinates offset from the value
  register \<open>x\<close> holds at that call, which for \<open>x = 0xF\<close> is 0 from the clearing of
  \<open>v[0xF]\<close> at entry until a call reports an erased pixel and 1 after that; the
  renderer left by the loops, and by the instruction, is the renderer before with
  exactly these calls made.
\<close>

theorem C7_sprite_origin_is_register_x:
  "(opcode AND 0xF000 = 0xD000 \<longrightarrow> opcode' AND 0xFF0F = opcode AND 0xFF0F
      \<longrightarrow> executeInstruction opcode' s = executeInstruction opcode s)
   \<and> (opcode AND 0xF000 = 0xD000 \<longrightarrow> opx opcode \<noteq> 0xF
      \<longrightarrow> (\<exists>s'. executeInstruction opcode s = Inr s'
             \<and> renderer s' =
                 apply_calls setPixel
                   (sprite_calls (uint (v s (opx opcode))) (memory s) (i s) (nat (opcode AND 0xF)))
                   (renderer s)))
   \<and> (opx opcode \<noteq> 0xF
      \<longrightarrow> snd (draw sp opcode mem ireg (vv, r))
            = apply_calls sp (sprite_calls (uint (vv (opx opcode))) mem ireg (nat (opcode AND 0xF))) r)
   \<and> snd (snd (draw (logged sp) opcode mem ireg (vv, r, [])))
       = sprite_trace sp (opx opcode) (sprite_positions mem ireg (nat (opcode AND 0xF)))
           (if opx opcode = 0xF then 0 else uint (vv (opx opcode))) r
   \<and> snd (draw sp opcode mem ireg (vv, r))
       = apply_calls sp
           (sprite_trace sp (opx opcode) (sprite_positions mem ireg (nat (opcode AND 0xF)))
              (if opx opcode = 0xF then 0 else uint (vv (opx opcode))) r) r
   \<and> (opcode AND 0xF000 = 0xD000
      \<longrightarrow> (\<exists>s'. executeInstruction opcode s = Inr s'
             \<and> renderer s' =
                 apply_calls setPixel
                   (sprite_trace setPixel (opx opcode)
                      (sprite_positions (memory s) (i s) (nat (opcode AND 0xF)))
                      (if opx opcode = 0xF then 0 else uint (v s (opx opcode))) (renderer s))
                   (renderer s)))"
proof (intro conjI impI)
  assume d: "opcode AND 0xF000 = 0xD000" and same: "opcode' AND 0xFF0F = opcode AND 0xFF0F"
  have "opcode' AND 0xF000 = 0xD000"
    using d same high_byte_low_nibble(3) [of opcode] high_byte_low_nibble(3) [of opcode'] by simp
  then show "executeInstruction opcode' s = executeInstruction opcode s"
    using d by (simp add: executeInstruction_D draw_ignores_y [OF same])
next
  assume d: "opcode AND 0xF000 = 0xD000" and x: "opx opcode \<noteq> 0xF"
  show "\<exists>s'. executeInstruction opcode s = Inr s'
             \<and> renderer s' =
                 apply_calls setPixel
                   (sprite_calls (uint (v s (opx opcode))) (memory s) (i s) (nat (opcode AND 0xF)))
                   (renderer s)"
    using draw_calls [OF x, of setPixel "memory s" "i s" "v s" "renderer s"]
    by (auto simp: executeInstruction_D [OF d] split: prod.splits)
next
  assume "opx opcode \<noteq> 0xF"
  then show "snd (draw sp opcode mem ireg (vv, r))
      = apply_calls sp (sprite_calls (uint (vv (opx opcode))) mem ireg (nat (opcode AND 0xF))) r"
    by (rule draw_calls)
next
  show "snd (snd (draw (logged sp) opcode mem ireg (vv, r, [])))
       = sprite_trace sp (opx opcode) (sprite_positions mem ireg (nat (opcode AND 0xF)))
           (if opx opcode = 0xF then 0 else uint (vv (opx opcode))) r"
    by (rule draw_trace)
next
  show "snd (draw sp opcode mem ireg (vv, r))
       = apply_calls sp
           (sprite_trace sp (opx opcode) (sprite_positions mem ireg (nat (opcode AND 0xF)))
              (if opx opcode = 0xF then 0 else uint (vv (opx opcode))) r) r"
    by (rule draw_renderer)
next
  assume d: "opcode AND 0xF000 = 0xD000"
  show "\<exists>s'. executeInstruction opcode s = Inr s'
             \<and> renderer s' =
                 apply_calls setPixel
                   (sprite_trace setPixel (opx opcode)
                      (sprite_positions (memory s) (i s) (nat (opcode AND 0xF)))
                      (if opx opcode = 0xF then 0 else uint (v s (opx opcode))) (renderer s))
                   (renderer s)"
    using draw_renderer [of setPixel opcode "memory s" "i s" "v s" "renderer s"]
    by (auto simp: executeInstruction_D [OF d] split: prod.splits)
qed

text \<open>
  \<open>0xD122\<close> with 3 in register 1 and 9 in register 2, font loaded, \<open>I = 0\<close>: two rows
  of eight calls at rows 3 and 4, columns 3 to 10; the 9 of register 2 appears nowhere,
  and \<open>0xD1F2\<close> does the same.  \<open>0xDF01\<close> with 5 in register \<open>0xF\<close> and the pixel of
  column 2, row 0 set: the calls start from 0, not 5; the third call erases the pixel,
  and the five calls after it start from 1.
\<close>

theorem C7_sprite_origin_witness:
  "(0xD122 :: int) AND 0xF000 = 0xD000 \<and> (0xD1F2 :: int) AND 0xFF0F = 0xD122 AND 0xFF0F
   \<and> opx 0xD122 = 1 \<and> opy 0xD122 = 2 \<and> opy 0xD1F2 = 0xF
   \<and> executeInstruction 0xD1F2
         ((loadSpritesIntoMemory (machine0 (\<lambda>_. 0)))\<lparr>v := (\<lambda>_. 0)(1 := 3, 2 := 9)\<rparr>)
       = executeInstruction 0xD122
           ((loadSpritesIntoMemory (machine0 (\<lambda>_. 0)))\<lparr>v := (\<lambda>_. 0)(1 := 3, 2 := 9)\<rparr>)
   \<and> \<not> isl (executeInstruction 0xD122
           ((loadSpritesIntoMemory (machine0 (\<lambda>_. 0)))\<lparr>v := (\<lambda>_. 0)(1 := 3, 2 := 9)\<rparr>))
   \<and> renderer (projr (executeInstruction 0xD122
           ((loadSpritesIntoMemory (machine0 (\<lambda>_. 0)))\<lparr>v := (\<lambda>_. 0)(1 := 3, 2 := 9)\<rparr>)))
       = apply_calls setPixel
           [(3, 3), (4, 3), (5, 3), (6, 3), (7, 3), (8, 3), (9, 3), (10, 3),
            (3, 4), (4, 4), (5, 4), (6, 4), (7, 4), (8, 4), (9, 4), (10, 4)]
           (new_Renderer 10)
   \<and> snd (snd (draw (logged setPixel) 0xD122
                  (memory (loadSpritesIntoMemory (machine0 (\<lambda>_. 0)))) 0
                  ((\<lambda>_. 0)(1 := 3, 2 := 9), new_Renderer 10, [])))
       = [(3, 3), (4, 3), (5, 3), (6, 3), (7, 3), (8, 3), (9, 3), (10, 3),
          (3, 4), (4, 4), (5, 4), (6, 4), (7, 4), (8, 4), (9, 4), (10, 4)]
   \<and> (0xDF01 :: int) AND 0xF000 = 0xD000 \<and> opx 0xDF01 = 0xF
   \<and> snd (snd (draw (logged setPixel) 0xDF01
                  (memory (loadSpritesIntoMemory (machine0 (\<lambda>_. 0)))) 0
                  ((\<lambda>_. 0)(0xF := 5), (new_Renderer 10)\<lparr>display := [2 \<mapsto> 1]\<rparr>, [])))
       = [(0, 0), (1, 0), (2, 0), (4, 1), (5, 1), (6, 1), (7, 1), (8, 1)]
   \<and> \<not> isl (executeInstruction 0xDF01
           ((loadSpritesIntoMemory (machine0 (\<lambda>_. 0)))
              \<lparr>v := (\<lambda>_. 0)(0xF := 5), renderer := (new_Renderer 10)\<lparr>display := [2 \<mapsto> 1]\<rparr>\<rparr>))
   \<and> renderer (projr (executeInstruction 0xDF01
           ((loadSpritesIntoMemory (machine0 (\<lambda>_. 0)))
              \<lparr>v := (\<lambda>_. 0)(0xF := 5), renderer := (new_Renderer 10)\<lparr>display := [2 \<mapsto> 1]\<rparr>\<rparr>)))
       = apply_calls setPixel
           [(0, 0), (1, 0), (2, 0), (4, 1), (5, 1), (6, 1), (7, 1), (8, 1)]
           ((new_Renderer 10)\<lparr>display := [2 \<mapsto> 1]\<rparr>)"
  using C7_sprite_origin_is_register_x
          [where opcode = "0xD122" and opcode' = "0xD1F2"
             and s = "(loadSpritesIntoMemory (machine0 (\<lambda>_. 0)))\<lparr>v := (\<lambda>_. 0)(1 := 3, 2 := 9)\<rparr>"
             and sp = setPixel and mem = "memory (loadSpritesIntoMemory (machine0 (\<lambda>_. 0)))"
             and ireg = 0 and vv = "(\<lambda>_. 0)(1 := 3, 2 := 9)" and r = "new_Renderer 10"]
        C7_sprite_origin_is_register_x
          [where opcode = "0xDF01" and opcode' = "0xDF01"
             and s = "(loadSpritesIntoMemory (machine0 (\<lambda>_. 0)))
                        \<lparr>v := (\<lambda>_. 0)(0xF := 5),
                          renderer := (new_Renderer 10)\<lparr>display := [2 \<mapsto> 1]\<rparr>\<rparr>"
             and sp = setPixel and mem = "memory (loadSpritesIntoMemory (machine0 (\<lambda>_. 0)))"
             and ireg = 0 and vv = "(\<lambda>_. 0)(0xF := 5)"
             and r = "(new_Renderer 10)\<lparr>display := [2 \<mapsto> 1]\<rparr>"]
  by (auto simp: opx_def opy_def sprite_calls_def row_calls_def sprite_trace_def
        sprite_positions_def setPixel_def new_Renderer_def u8_get_def to_int32_def upt_rec
        loadSpritesIntoMemory_def machine0_def new_CPU_def store_sprites_in_16_bytes)

text \<open>
  C2.  The claim: for each sprite row, \<open>setPixel\<close> is called once per set bit of the
  row's byte, at column offset \<open>j\<close> for bit \<open>7 - j\<close>, and never for a clear bit.  With
  the font loaded, \<open>memory[0]\<close> is \<open>0xF0\<close>, four set bits: \<open>0xD001\<close> with \<open>I = 0\<close> makes
  eight calls, columns 0 to 7, and sets the pixel of column 4, whose bit is clear.
  \<open>memory[5]\<close> is \<open>0x20\<close>, one set bit: with \<open>I = 5\<close> no call is made and the display
  stays empty.  The shift \<open>sprite <<= 1\<close> stands outside the column loop, so every
  column tests bit 7.
\<close>

theorem C2_sprite_bits_not_stepped:
  "u8_get (memory (loadSpritesIntoMemory (machine0 (\<lambda>_. 0)))) 0 = Some 0xF0
   \<and> snd (snd (draw (logged setPixel) 0xD001 (memory (loadSpritesIntoMemory (machine0 (\<lambda>_. 0)))) 0
                 (\<lambda>_. 0, new_Renderer 10, [])))
       = [(0, 0), (1, 0), (2, 0), (3, 0), (4, 0), (5, 0), (6, 0), (7, 0)]
   \<and> display (renderer (projr (executeInstruction 0xD001
                 (loadSpritesIntoMemory (machine0 (\<lambda>_. 0)))))) 4 = Some 1
   \<and> u8_get (memory (loadSpritesIntoMemory (machine0 (\<lambda>_. 0)))) 5 = Some 0x20
   \<and> snd (snd (draw (logged setPixel) 0xD001 (memory (loadSpritesIntoMemory (machine0 (\<lambda>_. 0)))) 5
                 (\<lambda>_. 0, new_Renderer 10, []))) = []
   \<and> display (renderer (projr (executeInstruction 0xD001
                 ((loadSpritesIntoMemory (machine0 (\<lambda>_. 0)))\<lparr>i := 5\<rparr>)))) = Map.empty"
  by (simp add: loadSpritesIntoMemory_def machine0_def new_CPU_def store_sprites_in_16_bytes
        executeInstruction_def draw_def draw_row_def draw_col_def
        logged_def setPixel_def u8_get_def to_int32_def opx_def Let_def upt_rec
        new_Renderer_def)

end
